theory Spec2Isabelle
  imports Complex_Main "HOL-Library.Multiset"
begin

section \<open>Python values and exceptions used by the worker\<close>

text \<open>
  The exceptions that the worker code of \<^verbatim>\<open>Simple-GUI.py\<close> can raise while it reads the
  encoder output. None of them is caught inside \<^verbatim>\<open>encode_thread\<close>, so a raised exception
  ends the worker thread.
\<close>

datatype py_error =
  TypeError | ValueError | IndexError | ZeroDivisionError | OSError | UnicodeDecodeError

text \<open>\<^verbatim>\<open>xs[i]\<close> for a non-negative index: IndexError out of range.\<close>

definition py_index :: "'a list \<Rightarrow> nat \<Rightarrow> py_error + 'a" where
  "py_index xs i = (if i < length xs then Inr (xs ! i) else Inl IndexError)"

text \<open>
  \<^verbatim>\<open>a / b\<close> on numbers. Python computes with binary floating point; the model computes
  with real numbers, so rounding errors of the float operations are not represented.
\<close>

definition py_truediv :: "real \<Rightarrow> real \<Rightarrow> py_error + real" where
  "py_truediv a b = (if b = 0 then Inl ZeroDivisionError else Inr (a / b))"

text \<open>
  A \<open>string\<close> is a list of characters with code points below 256. Among these,
  \<^verbatim>\<open>str.strip()\<close> removes the characters for which \<^verbatim>\<open>str.isspace()\<close> holds: tab, line
  feed, vertical tab, form feed, carriage return, the separators 0x1C to 0x1F, the blank,
  the next-line character 0x85 and the no-break space 0xA0.
\<close>

definition is_space :: "char \<Rightarrow> bool" where
  "is_space c = (c \<in> set [CHR 0x09, CHR 0x0A, CHR 0x0B, CHR 0x0C, CHR 0x0D,
                            CHR 0x1C, CHR 0x1D, CHR 0x1E, CHR 0x1F, CHR 0x20,
                            CHR 0x85, CHR 0xA0])"

definition py_strip :: "string \<Rightarrow> string" where
  "py_strip s = rev (dropWhile is_space (rev (dropWhile is_space s)))"

text \<open>
  \<^verbatim>\<open>int(str)\<close> skips less around the literal: tab, line feed, vertical tab, form feed,
  carriage return and the blank, and the two characters 0x85 and 0xA0, which it turns
  into blanks before it parses. The separators 0x1C to 0x1F are not skipped: a string
  that holds one is not an integer literal.
\<close>

definition is_int_space :: "char \<Rightarrow> bool" where
  "is_int_space c = (c \<in> set [CHR 0x09, CHR 0x0A, CHR 0x0B, CHR 0x0C, CHR 0x0D, CHR 0x20,
                                CHR 0x85, CHR 0xA0])"

definition int_strip :: "string \<Rightarrow> string" where
  "int_strip s = rev (dropWhile is_int_space (rev (dropWhile is_int_space s)))"

definition is_digit :: "char \<Rightarrow> bool" where
  "is_digit c = (48 \<le> (of_char c :: nat) \<and> (of_char c :: nat) \<le> 57)"

text \<open>
  The body of an integer literal accepted by \<^verbatim>\<open>int(str)\<close>: digits, with single
  underscores allowed between two digits. \<open>prev\<close> tells whether the previous character
  was a digit.
\<close>

fun digits_body :: "bool \<Rightarrow> string \<Rightarrow> bool" where
  "digits_body prev [] = prev"
| "digits_body prev (c # cs) =
     (if is_digit c then digits_body True cs
      else if c = CHR ''_'' \<and> prev then digits_body False cs
      else False)"

fun digits_val :: "int \<Rightarrow> string \<Rightarrow> int" where
  "digits_val acc [] = acc"
| "digits_val acc (c # cs) =
     (if is_digit c then digits_val (10 * acc + (int (of_char c) - 48)) cs
      else digits_val acc cs)"

text \<open>
  \<^verbatim>\<open>int(s)\<close> for a string \<open>s\<close>: \<open>None\<close> stands for ValueError. (Interpreters that
  limit the number of digits of a literal, 4300 by default, raise ValueError beyond the
  limit; the model has no such limit.)
\<close>

definition py_int :: "string \<Rightarrow> int option" where
  "py_int s =
     (case int_strip s of
        [] \<Rightarrow> None
      | c # cs \<Rightarrow>
          (if c = CHR ''-'' then (if digits_body False cs then Some (- digits_val 0 cs) else None)
           else if c = CHR ''+'' then (if digits_body False cs then Some (digits_val 0 cs) else None)
           else (if digits_body False (c # cs) then Some (digits_val 0 (c # cs)) else None)))"

text \<open>\<^verbatim>\<open>s.replace("kB", "")\<close>: every occurrence, found from left to right, is deleted.\<close>

fun replace_kB :: "string \<Rightarrow> string" where
  "replace_kB (a # b # cs) =
     (if a = CHR ''k'' \<and> b = CHR ''B'' then replace_kB cs else a # replace_kB (b # cs))"
| "replace_kB cs = cs"

text \<open>\<^verbatim>\<open>int(x)\<close> for a float truncates towards zero.\<close>

definition py_trunc :: "real \<Rightarrow> int" where
  "py_trunc x = (if 0 \<le> x then \<lfloor>x\<rfloor> else \<lceil>x\<rceil>)"

text \<open>\<^verbatim>\<open>round(x)\<close> with one argument rounds to the nearest integer, a tie to the even one.\<close>

definition py_round :: "real \<Rightarrow> int" where
  "py_round x =
     (let f = \<lfloor>x\<rfloor>; d = x - of_int f
      in if d < 1 / 2 then f else if 1 / 2 < d then f + 1 else if even f then f else f + 1)"

section \<open>Splitting a progress line\<close>

text \<open>
  \<^verbatim>\<open>re.split("frame=|fps=|q=|size=|time=", line)\<close>: the line is scanned from left to
  right; at each position the alternatives are tried in the order written and the first
  that matches there is cut out. The pieces between the matches are returned.
\<close>

definition field_labels :: "string list" where
  "field_labels = [''frame='', ''fps='', ''q='', ''size='', ''time='']"

fun match_label :: "string list \<Rightarrow> string \<Rightarrow> string option" where
  "match_label [] s = None"
| "match_label (p # ps) s = (if take (length p) s = p then Some p else match_label ps s)"

function re_split_from :: "string \<Rightarrow> string \<Rightarrow> string list" where
  "re_split_from acc [] = [rev acc]"
| "re_split_from acc (c # cs) =
     (case match_label field_labels (c # cs) of
        Some p \<Rightarrow> rev acc # re_split_from [] (drop (length p - 1) cs)
      | None \<Rightarrow> re_split_from (c # acc) cs)"
  by pat_completeness auto
termination
  by (relation "measure (\<lambda>(acc, s). length s)") auto

definition re_split :: "string \<Rightarrow> string list" where
  "re_split line = re_split_from [] line"

section \<open>Formatting helpers\<close>

text \<open>
  \<^verbatim>\<open>calc_time(start_time, end_time)\<close> returns a formatted text and the elapsed seconds;
  the model keeps the elapsed seconds, from which the text is printed.
\<close>

definition calc_time :: "real \<Rightarrow> real \<Rightarrow> real" where
  "calc_time start_time end_time = end_time - start_time"

text \<open>
  \<^verbatim>\<open>format_seconds(seconds)\<close> prints seconds, minutes or hours. The model keeps the
  number that is printed and its unit; \<open>No_time\<close> is the empty text that
  \<^verbatim>\<open>time_to_complete\<close> starts with.
\<close>

datatype time_text = No_time | Seconds int | Minutes int | Hours real

definition format_seconds :: "real \<Rightarrow> time_text" where
  "format_seconds seconds =
     (if seconds < 60 then Seconds (py_trunc seconds)
      else if seconds < 3600 then Minutes (py_round (seconds / 60))
      else Hours (seconds / 3600))"

section \<open>One progress line (lines 155 to 178 of \<^verbatim>\<open>encode_thread\<close>)\<close>

text \<open>
  The text appended to \<^verbatim>\<open>status_deque\<close> is
  \<^verbatim>\<open>"frame: {}/{} | fps: {} | done: {:.1f}% | est. size: {:.2f} | elapsed: {} | time: {}"\<close>;
  the record keeps the seven values that are printed into it.
\<close>

record sample =
  frame :: string
  frames_total :: int
  fps :: string
  percent_done :: real
  est_size :: real
  elapsed :: real
  time_to_complete :: time_text

text \<open>
  \<open>process_line total_frames start_time t1 t2 line\<close> is the body of \<^verbatim>\<open>if line:\<close>
  for a non-empty line; \<open>t1\<close> and \<open>t2\<close> are what \<^verbatim>\<open>time.time()\<close> returns at lines 170
  and 177. The result is the new value of \<^verbatim>\<open>done_frames\<close> and the published sample, or
  the exception raised.
\<close>

definition bind_err :: "'e + 'a \<Rightarrow> ('a \<Rightarrow> 'e + 'b) \<Rightarrow> 'e + 'b" where
  "bind_err r k = (case r of Inl e \<Rightarrow> Inl e | Inr v \<Rightarrow> k v)"

definition int_or_raise :: "string \<Rightarrow> py_error + int" where
  "int_or_raise s = (case py_int s of None \<Rightarrow> Inl ValueError | Some n \<Rightarrow> Inr n)"

definition process_line ::
  "int \<Rightarrow> real \<Rightarrow> real \<Rightarrow> real \<Rightarrow> string \<Rightarrow> py_error + (int \<times> sample)" where
  "process_line total_frames start_time t1 t2 line =
     (let split = re_split line in
      bind_err (py_index split 1) (\<lambda>f.
      bind_err (int_or_raise f) (\<lambda>done_frames.
      bind_err
        (if total_frames \<noteq> 0 then
           bind_err (py_truediv (of_int (total_frames - done_frames)) (of_int total_frames)) (\<lambda>q.
           bind_err (py_truediv (of_int (total_frames - done_frames) * (t1 - start_time))
                       (of_int (if done_frames = 0 then 1 else done_frames))) (\<lambda>r.
           Inr (100 - q * 100, format_seconds r)))
         else Inr (0, No_time)) (\<lambda>(percent, ttc).
      bind_err
        (if 0 < percent then
           bind_err (py_index split 4) (\<lambda>sz.
           bind_err (int_or_raise (replace_kB sz)) (\<lambda>cur_size.
           bind_err (py_truediv (of_int (cur_size * 100)) percent) (\<lambda>q.
           Inr (q / 1024))))
         else Inr 0) (\<lambda>est.
      bind_err (py_index split 2) (\<lambda>fp.
        Inr (done_frames,
             \<lparr>frame = f, frames_total = total_frames, fps = fp, percent_done = percent,
              est_size = est, elapsed = calc_time start_time t2,
              time_to_complete = ttc\<rparr>)))))))"

section \<open>Jobs and the data shared by the two threads\<close>

text \<open>
  The three texts stored under \<^verbatim>\<open>"status"\<close>: \<^verbatim>\<open>"waiting"\<close>, \<^verbatim>\<open>"started"\<close> and
  \<^verbatim>\<open>"finished"\<close> (each with a leading pictogram). The code has no fourth status.
\<close>

datatype status = Waiting | Started | Finished

text \<open>
  An entry of \<^verbatim>\<open>encode_list\<close>. \<^verbatim>\<open>test_encode\<close> is \<^verbatim>\<open>False\<close> (\<open>None\<close>) or a number
  of frames. The entry's \<^verbatim>\<open>"metadata"\<close> is a reference to the one dictionary
  \<^verbatim>\<open>video_metadata\<close> of the GUI, which is kept in the state below.
\<close>

record job =
  title :: string
  uuid :: string
  status :: status
  output_file :: string
  command :: "string list"
  test_encode :: "int option"

text \<open>The keys of \<^verbatim>\<open>video_metadata\<close> that the queue and the worker read.\<close>

record metadata =
  contains_video :: bool
  file_name :: "string option"
  frame_count :: "int option"
  size_MiB :: "real option"

text \<open>
  A track reported by the media inspection: the file name of a General track, the frame
  count and the stream size in bytes of a Video track (each possibly absent).
\<close>

datatype track = General string | Video "int option" "int option" | Other_track

text \<open>What \<^verbatim>\<open>encode_queue\<close> carries: a job, \<^verbatim>\<open>_skip\<close> or \<^verbatim>\<open>_sentinel\<close>.\<close>

datatype token = Job job | Skip | Sentinel

text \<open>An entry of \<^verbatim>\<open>encode_event\<close>: the job's uuid and the status text to store.\<close>

type_synonym event = "string \<times> status"

text \<open>
  \<^verbatim>\<open>end_string\<close> is printed from the title, the duration and \<^verbatim>\<open>done_frames\<close>;
  \<^verbatim>\<open>size_analysis\<close> is empty (\<open>None\<close>) or printed from the final size, the saving and
  the reduction in percent.
\<close>

type_synonym end_string = "string \<times> real \<times> int"

type_synonym size_analysis = "(real \<times> real \<times> real) option"

datatype gui_msg = Text string | End_report end_string size_analysis

datatype status_item = Progress sample | End_status end_string

text \<open>
  What a read of \<^verbatim>\<open>process.stdout\<close> finds next: a line, or bytes that the decoder of
  the text stream rejects. The pipe is opened in text mode with strict decoding
  (\<^verbatim>\<open>universal_newlines=True\<close>), so such a read raises UnicodeDecodeError. The end of
  the list is the end of the stream. Every read returns: a child process that neither
  writes nor ends is not represented.
\<close>

datatype chunk = Line string | Undecodable

text \<open>The local variables of \<^verbatim>\<open>encode_thread\<close> while a job runs.\<close>

record locals =
  params :: job
  total_frames :: int
  done_frames :: int
  start_time :: real
  stdout :: "chunk list"

text \<open>
  The worker's position, named by the line of \<^verbatim>\<open>Simple-GUI.py\<close> it executes next.
  \<open>Raised e j\<close>: the thread has ended with the uncaught exception \<open>e\<close>; \<open>j\<close> is the job
  whose start had been announced, if any.
\<close>

datatype pc =
    L101
  | L104
  | L111 job
  | L122 job int
  | L129 locals
  | L144 locals
  | L180 locals
  | L205 job end_string size_analysis
  | L206 job end_string size_analysis
  | L208 job end_string size_analysis
  | L209 job end_string size_analysis
  | Exited
  | Raised py_error "job option"

record state =
  encode_list :: "job list"
  encode_queue :: "token list"
  encode_event :: "event list"
  gui_queue :: "gui_msg list"
  status_deque :: "status_item list"
  video_metadata :: metadata
  stoprequest :: bool
  encode_running :: bool
  encode_queue_active :: bool
  worker :: pc
  gui_alive :: bool

text \<open>
  The state when the event loop is entered: the worker thread has been started and
  \<^verbatim>\<open>encode_queue_active\<close> has been set (line 432).
\<close>

definition init :: state where
  "init =
     \<lparr>encode_list = [], encode_queue = [], encode_event = [],
      gui_queue = [Text ''Found ffmpeg''], status_deque = [],
      video_metadata = \<lparr>contains_video = False, file_name = None, frame_count = None,
                         size_MiB = None\<rparr>,
      stoprequest = False, encode_running = False, encode_queue_active = True,
      worker = L101, gui_alive = True\<rparr>"

section \<open>The worker thread \<^verbatim>\<open>encode_thread\<close>\<close>

text \<open>
  What a step of the worker takes from outside the program: the clock (\<open>clock2\<close> for the
  second reading within one loop iteration), what the child process writes (\<open>None\<close>:
  \<^verbatim>\<open>subprocess.Popen\<close> raises OSError, the process could not be started) and the tracks
  that \<^verbatim>\<open>MediaInfo.parse\<close> reports for the output file (\<open>None\<close>: it raises; for an
  output file that does not exist this is FileNotFoundError, an OSError).
\<close>

record env =
  clock :: real
  clock2 :: real
  spawned :: "chunk list option"
  inspected :: "track list option"

text \<open>
  Line 116: \<^verbatim>\<open>test_encode if test_encode else int(metadata["frame_count"])\<close>.
  \<^verbatim>\<open>int(None)\<close> raises TypeError.
\<close>

definition total_frames_of :: "int option \<Rightarrow> int option \<Rightarrow> py_error + int" where
  "total_frames_of test fc =
     (case test of
        Some n \<Rightarrow>
          (if n \<noteq> 0 then Inr n
           else (case fc of None \<Rightarrow> Inl TypeError | Some c \<Rightarrow> Inr c))
      | None \<Rightarrow> (case fc of None \<Rightarrow> Inl TypeError | Some c \<Rightarrow> Inr c))"

text \<open>
  Lines 129 to 135: the lines before the first one that starts with \<^verbatim>\<open>fra\<close> are
  collected in \<^verbatim>\<open>msg\<close>; that first progress line is consumed as well. The result is
  \<^verbatim>\<open>msg\<close> and what is left in the stream, or the exception of a read that fails.
\<close>

fun preamble :: "string \<Rightarrow> chunk list \<Rightarrow> py_error + (string \<times> chunk list)" where
  "preamble msg [] = Inr (msg, [])"
| "preamble msg (Undecodable # rest) = Inl UnicodeDecodeError"
| "preamble msg (Line line # rest) =
     (if take 3 line = ''fra'' then Inr (msg, rest)
      else preamble (msg @ py_strip line @ [CHR 0x0A]) rest)"

text \<open>Lines 180 to 201: the size report, from the first Video track of the output file.\<close>

fun size_analysis_of :: "track list \<Rightarrow> real option \<Rightarrow> size_analysis" where
  "size_analysis_of [] sz = None"
| "size_analysis_of (Video fc ss # ts) sz =
     (case ss of
        None \<Rightarrow> None
      | Some b \<Rightarrow>
          (case sz of
             None \<Rightarrow> None
           | Some m \<Rightarrow>
               (if b \<noteq> 0 \<and> m \<noteq> 0
                then (let final_size = of_int b / 1048576; diff = m - final_size
                      in Some (final_size, diff, diff / m * 100))
                else None)))"
| "size_analysis_of (t # ts) sz = size_analysis_of ts sz"

text \<open>
  One step of the worker from its current position. \<open>None\<close>: the worker cannot move
  (it waits for the event or for the queue, or the thread has ended).
\<close>

definition worker_step :: "env \<Rightarrow> state \<Rightarrow> state option" where
  "worker_step e s =
     (case worker s of
        L101 \<Rightarrow> (if encode_queue_active s then Some (s\<lparr>worker := L104\<rparr>) else None)
      | L104 \<Rightarrow>
          (case encode_queue s of
             [] \<Rightarrow> None
           | t # q \<Rightarrow>
               Some (s\<lparr>encode_queue := q,
                        worker := (case t of Sentinel \<Rightarrow> Exited | Skip \<Rightarrow> L101
                                   | Job p \<Rightarrow> L111 p)\<rparr>))
      | L111 p \<Rightarrow>
          (case total_frames_of (test_encode p) (frame_count (video_metadata s)) of
             Inl err \<Rightarrow> Some (s\<lparr>worker := Raised err None\<rparr>)
           | Inr tf \<Rightarrow>
               Some (s\<lparr>encode_event := encode_event s @ [(uuid p, Started)],
                        worker := L122 p tf\<rparr>))
      | L122 p tf \<Rightarrow>
          (case spawned e of
             None \<Rightarrow> Some (s\<lparr>encode_running := True, worker := Raised OSError (Some p)\<rparr>)
           | Some out \<Rightarrow>
               Some (s\<lparr>encode_running := True,
                        worker := L129 \<lparr>params = p, total_frames = tf, done_frames = 0,
                                         start_time = clock e, stdout = out\<rparr>\<rparr>))
      | L129 l \<Rightarrow>
          (case preamble [] (stdout l) of
             Inl err \<Rightarrow> Some (s\<lparr>worker := Raised err (Some (params l))\<rparr>)
           | Inr (msg, rest) \<Rightarrow>
               Some (s\<lparr>gui_queue := gui_queue s @ [Text ''START ENCODE VIDEO''],
                        worker := L144 (l\<lparr>stdout := rest\<rparr>)\<rparr>))
      | L144 l \<Rightarrow>
          (if stoprequest s
           then Some (s\<lparr>gui_queue := gui_queue s @ [Text ''Reiceived kill signal, stopping...''],
                         worker := L180 l\<rparr>)
           else
             (case stdout l of
                [] \<Rightarrow> Some (s\<lparr>worker := L180 l\<rparr>)
              | Undecodable # rest \<Rightarrow>
                  Some (s\<lparr>worker := Raised UnicodeDecodeError (Some (params l))\<rparr>)
              | Line line # rest \<Rightarrow>
                  (if take 3 line \<noteq> ''fra'' then Some (s\<lparr>worker := L180 (l\<lparr>stdout := rest\<rparr>)\<rparr>)
                   else
                     (case process_line (total_frames l) (start_time l) (clock e) (clock2 e) line of
                        Inl err \<Rightarrow> Some (s\<lparr>worker := Raised err (Some (params l))\<rparr>)
                      | Inr (d, smp) \<Rightarrow>
                          Some (s\<lparr>status_deque := [Progress smp],
                                   worker := L144 (l\<lparr>done_frames := d, stdout := rest\<rparr>)\<rparr>)))))
      | L180 l \<Rightarrow>
          (case inspected e of
             None \<Rightarrow> Some (s\<lparr>worker := Raised OSError (Some (params l))\<rparr>)
           | Some tracks \<Rightarrow>
               Some (s\<lparr>worker :=
                         L205 (params l)
                           (title (params l), calc_time (start_time l) (clock e), done_frames l)
                           (size_analysis_of tracks (size_MiB (video_metadata s)))\<rparr>))
      | L205 p es sa \<Rightarrow> Some (s\<lparr>encode_running := False, worker := L206 p es sa\<rparr>)
      | L206 p es sa \<Rightarrow> Some (s\<lparr>stoprequest := False, worker := L208 p es sa\<rparr>)
      | L208 p es sa \<Rightarrow>
          Some (s\<lparr>encode_event := encode_event s @ [(uuid p, Finished)], worker := L209 p es sa\<rparr>)
      | L209 p es sa \<Rightarrow>
          Some (s\<lparr>gui_queue := gui_queue s @ [End_report es sa],
                   status_deque := [End_status es], worker := L101\<rparr>)
      | Exited \<Rightarrow> None
      | Raised err j \<Rightarrow> None)"

section \<open>The event loop of \<^verbatim>\<open>the_gui\<close>\<close>

text \<open>\<^verbatim>\<open>xs.pop(i)\<close> and \<^verbatim>\<open>xs.insert(i, x)\<close> on a list, for \<open>i\<close> within the list.\<close>

definition pop_at :: "nat \<Rightarrow> 'a list \<Rightarrow> 'a list" where
  "pop_at i xs = take i xs @ drop (Suc i) xs"

definition insert_at :: "nat \<Rightarrow> 'a \<Rightarrow> 'a list \<Rightarrow> 'a list" where
  "insert_at i x xs = take i xs @ x # drop i xs"

text \<open>
  \<^verbatim>\<open>build_encode_queue()\<close>: the queue is emptied and every entry of \<^verbatim>\<open>encode_list\<close>
  whose status is waiting is put into it, in the order of the list.
\<close>

definition build_encode_queue :: "state \<Rightarrow> state" where
  "build_encode_queue s =
     s\<lparr>encode_queue := map Job (filter (\<lambda>j. status j = Waiting) (encode_list s))\<rparr>"

text \<open>
  The loops \<^verbatim>\<open>for i, job in enumerate(encode_list)\<close> of the three queue buttons change the
  list that they iterate over. The list iterator holds an index: the next entry it yields
  is the one at that index of the list as it is then, as long as the index is within the
  list. \<open>i\<close> is the index of the iterator.
\<close>

function remove_loop :: "string \<Rightarrow> nat \<Rightarrow> job list \<Rightarrow> job list" where
  "remove_loop job_id i xs =
     (if i < length xs
      then (if uuid (xs ! i) = job_id \<and> status (xs ! i) \<noteq> Started
            then remove_loop job_id (Suc i) (pop_at i xs)
            else remove_loop job_id (Suc i) xs)
      else xs)"
  by pat_completeness auto
termination
  by (relation "measure (\<lambda>(job_id, i, xs). length xs - i)") (auto simp: pop_at_def)

function up_loop :: "string \<Rightarrow> nat \<Rightarrow> job list \<Rightarrow> job list" where
  "up_loop job_id i xs =
     (if i < length xs
      then (if uuid (xs ! i) = job_id \<and> i \<noteq> 0
            then up_loop job_id (Suc i) (insert_at (i - 1) (xs ! i) (pop_at i xs))
            else up_loop job_id (Suc i) xs)
      else xs)"
  by pat_completeness auto
termination
  by (relation "measure (\<lambda>(job_id, i, xs). length xs - i)")
     (auto simp: pop_at_def insert_at_def)

function down_loop :: "string \<Rightarrow> nat \<Rightarrow> job list \<Rightarrow> job list" where
  "down_loop job_id i xs =
     (if i < length xs
      then (if uuid (xs ! i) = job_id \<and> i \<noteq> length xs - 1
            then down_loop job_id (Suc i) (insert_at (i + 1) (xs ! i) (pop_at i xs))
            else down_loop job_id (Suc i) xs)
      else xs)"
  by pat_completeness auto
termination
  by (relation "measure (\<lambda>(job_id, i, xs). length xs - i)")
     (auto simp: pop_at_def insert_at_def)

declare remove_loop.simps [simp del] up_loop.simps [simp del] down_loop.simps [simp del]

text \<open>
  The handlers of the queue buttons. \<open>sel\<close> is the selection of the queue display, each
  selected line given by the uuid that ends it (\<^verbatim>\<open>queue_item.split()[-1]\<close>).
\<close>

definition remove_task :: "string list \<Rightarrow> state \<Rightarrow> state" where
  "remove_task sel s =
     build_encode_queue
       (s\<lparr>encode_list := foldl (\<lambda>xs job_id. remove_loop job_id 0 xs) (encode_list s) sel\<rparr>)"

definition move_up :: "string list \<Rightarrow> state \<Rightarrow> state" where
  "move_up sel s =
     (if sel \<noteq> [] \<and> length sel = 1 \<and> 1 < length (encode_list s)
      then build_encode_queue (s\<lparr>encode_list := up_loop (sel ! 0) 0 (encode_list s)\<rparr>)
      else s)"

definition move_down :: "string list \<Rightarrow> state \<Rightarrow> state" where
  "move_down sel s =
     (if sel \<noteq> [] \<and> length sel = 1 \<and> 1 < length (encode_list s)
      then build_encode_queue (s\<lparr>encode_list := down_loop (sel ! 0) 0 (encode_list s)\<rparr>)
      else s)"

text \<open>
  The handler of the input field, for a file that exists: the tracks reported by the
  media inspection are written into \<^verbatim>\<open>video_metadata\<close>.
\<close>

fun analyse_input :: "track list \<Rightarrow> metadata \<Rightarrow> metadata" where
  "analyse_input [] m = m"
| "analyse_input (General n # ts) m = analyse_input ts (m\<lparr>file_name := Some n\<rparr>)"
| "analyse_input (Video fc ss # ts) m =
     analyse_input ts
       (m\<lparr>contains_video := True, frame_count := fc,
          size_MiB := (case ss of None \<Rightarrow> None
                       | Some b \<Rightarrow> (if b \<noteq> 0 then Some (of_int b / 1048576) else None))\<rparr>)"
| "analyse_input (Other_track # ts) m = analyse_input ts m"

text \<open>
  The handler of "Start encode". \<open>input\<close> and \<open>output\<close> are the paths in the form,
  \<open>job_id\<close> is the value of \<^verbatim>\<open>uuid.uuid4().hex\<close>, \<open>n_frames\<close> is the text of the frame
  limit when the test encode is switched on. An exception raised while the entry is
  built (a missing \<^verbatim>\<open>"name"\<close>, a frame limit that is not a number) is caught by the
  handler and nothing is added.
\<close>

definition start_encode ::
  "string \<Rightarrow> string \<Rightarrow> string \<Rightarrow> string list \<Rightarrow> string option \<Rightarrow> state \<Rightarrow> state" where
  "start_encode input output job_id cmd n_frames s =
     (if input = [] then s
      else if output = [] then s
      else if \<not> contains_video (video_metadata s) then s
      else
        (case file_name (video_metadata s) of
           None \<Rightarrow> s
         | Some name \<Rightarrow>
             (case (case n_frames of None \<Rightarrow> Some None
                    | Some txt \<Rightarrow> (case py_int txt of None \<Rightarrow> None | Some n \<Rightarrow> Some (Some n))) of
                None \<Rightarrow> s
              | Some te \<Rightarrow>
                  build_encode_queue
                    (s\<lparr>encode_list := encode_list s @
                         [\<lparr>title = name, uuid = job_id, status = Waiting, output_file = output,
                           command = cmd, test_encode = te\<rparr>]\<rparr>))))"

text \<open>"Stop encode": \<^verbatim>\<open>stoprequest.set()\<close> and \<^verbatim>\<open>pause_queue()\<close>.\<close>

definition stop_encode :: "state \<Rightarrow> state" where
  "stop_encode s =
     (let s1 = s\<lparr>stoprequest := True\<rparr>
      in if encode_queue_active s1 then s1\<lparr>encode_queue_active := False\<rparr> else s1)"

text \<open>"Pause queue": \<^verbatim>\<open>toggle_queue()\<close> and \<^verbatim>\<open>encode_queue.put(_skip)\<close>.\<close>

definition toggle_queue :: "state \<Rightarrow> state" where
  "toggle_queue s =
     (if encode_queue_active s then s\<lparr>encode_queue_active := False\<rparr>
      else s\<lparr>encode_queue_active := True\<rparr>)"

definition pause_button :: "state \<Rightarrow> state" where
  "pause_button s = (let s1 = toggle_queue s in s1\<lparr>encode_queue := encode_queue s1 @ [Skip]\<rparr>)"

text \<open>
  The end of each pass of the event loop: the status box takes the entry of
  \<^verbatim>\<open>status_deque\<close>, one message of \<^verbatim>\<open>gui_queue\<close> is printed, and one entry of
  \<^verbatim>\<open>encode_event\<close> is written into the status of the job with that uuid.
\<close>

definition poll_status :: "state \<Rightarrow> state" where
  "poll_status s = s\<lparr>status_deque := tl (status_deque s)\<rparr>"

definition poll_message :: "state \<Rightarrow> state" where
  "poll_message s = s\<lparr>gui_queue := tl (gui_queue s)\<rparr>"

definition poll_event :: "state \<Rightarrow> state" where
  "poll_event s =
     (case encode_event s of
        [] \<Rightarrow> s
      | ev # evs \<Rightarrow>
          s\<lparr>encode_event := evs,
            encode_list := map (\<lambda>j. if uuid j = fst ev then j\<lparr>status := snd ev\<rparr> else j)
                             (encode_list s)\<rparr>)"

text \<open>
  Lines 766 to 779, after the event loop has been left: the stop request, the queue
  emptied, the sentinel put, the queue event set. The GUI thread then waits for the worker.
\<close>

definition shutdown :: "state \<Rightarrow> state" where
  "shutdown s =
     s\<lparr>stoprequest := True, encode_queue := [Sentinel], encode_queue_active := True,
       gui_alive := False\<rparr>"

text \<open>
  The removal as the specification words it, for comparison with \<open>remove_task\<close>: it
  fails with \<open>InvalidState\<close> if the job is running and removes the job otherwise.
\<close>

datatype queue_error = InvalidState | NotFound

definition spec_remove :: "string \<Rightarrow> job list \<Rightarrow> queue_error + job list" where
  "spec_remove job_id xs =
     (if \<exists>j \<in> set xs. uuid j = job_id \<and> status j = Started then Inl InvalidState
      else Inr (filter (\<lambda>j. uuid j \<noteq> job_id) xs))"

section \<open>The two threads together\<close>

datatype gui_action =
    Input "track list"
  | Start_encode string string string "string list" "string option"
  | Remove_task "string list"
  | Up "string list"
  | Down "string list"
  | Stop_encode
  | Pause_queue
  | Poll_status
  | Poll_message
  | Poll_event
  | Exit

text \<open>
  A step of the GUI thread. \<^verbatim>\<open>uuid4\<close> draws 122 random bits; the model takes the new
  uuid from outside and excludes (\<open>None\<close>) a draw that repeats the uuid of a listed job.
\<close>

definition gui_step :: "gui_action \<Rightarrow> state \<Rightarrow> state option" where
  "gui_step a s =
     (case a of
        Input ts \<Rightarrow> Some (s\<lparr>video_metadata := analyse_input ts (video_metadata s)\<rparr>)
      | Start_encode input output job_id cmd n_frames \<Rightarrow>
          (if job_id \<in> set (map uuid (encode_list s)) then None
           else Some (start_encode input output job_id cmd n_frames s))
      | Remove_task sel \<Rightarrow> Some (remove_task sel s)
      | Up sel \<Rightarrow> Some (move_up sel s)
      | Down sel \<Rightarrow> Some (move_down sel s)
      | Stop_encode \<Rightarrow> Some (stop_encode s)
      | Pause_queue \<Rightarrow> Some (pause_button s)
      | Poll_status \<Rightarrow> Some (poll_status s)
      | Poll_message \<Rightarrow> Some (poll_message s)
      | Poll_event \<Rightarrow> Some (poll_event s)
      | Exit \<Rightarrow> Some (shutdown s))"

text \<open>
  The two threads interleave at the steps of the worker and of the event loop. A step of
  the worker is its code from one position to the next; a step of the GUI is one handler,
  or one of the three polls that end a pass of the event loop, taken as a whole. A step of
  the system is a step of the worker or, while the event loop runs, a step of the GUI.
\<close>

datatype action = Worker env | Gui gui_action

definition step :: "action \<Rightarrow> state \<Rightarrow> state option" where
  "step a s =
     (case a of
        Worker e \<Rightarrow> worker_step e s
      | Gui g \<Rightarrow> (if gui_alive s then gui_step g s else None))"

fun exec :: "action list \<Rightarrow> state \<Rightarrow> state option" where
  "exec [] s = Some s"
| "exec (a # as) s = (case step a s of None \<Rightarrow> None | Some s' \<Rightarrow> exec as s')"

inductive reachable :: "state \<Rightarrow> bool" where
  reachable_init: "reachable init"
| reachable_step: "reachable s \<Longrightarrow> step a s = Some s' \<Longrightarrow> reachable s'"

section \<open>What the worker holds and what it has announced\<close>

text \<open>The job that the worker holds at its position, if any.\<close>

fun job_of :: "pc \<Rightarrow> job option" where
  "job_of (L111 p) = Some p"
| "job_of (L122 p tf) = Some p"
| "job_of (L129 l) = Some (params l)"
| "job_of (L144 l) = Some (params l)"
| "job_of (L180 l) = Some (params l)"
| "job_of (L205 p es sa) = Some p"
| "job_of (L206 p es sa) = Some p"
| "job_of (L208 p es sa) = Some p"
| "job_of (L209 p es sa) = Some p"
| "job_of (Raised err j) = j"
| "job_of L101 = None"
| "job_of L104 = None"
| "job_of Exited = None"

text \<open>
  The uuid of the job whose start the worker has put into \<^verbatim>\<open>encode_event\<close> and whose end
  it has not put yet.
\<close>

fun worker_open :: "pc \<Rightarrow> string option" where
  "worker_open (L111 p) = None"
| "worker_open (L209 p es sa) = None"
| "worker_open w = map_option uuid (job_of w)"

text \<open>
  \<open>gui_open evs w\<close> reads the pending events backwards from what the worker has announced
  (\<open>w\<close>): the events must alternate between the start and the end of one job. The result
  is the uuid of the job that is open on the side of the GUI, which has not read \<open>evs\<close>
  yet; \<open>None\<close> if the events do not alternate.
\<close>

fun gui_open :: "event list \<Rightarrow> string option \<Rightarrow> string option option" where
  "gui_open [] w = Some w"
| "gui_open ((u, st) # evs) w =
     (case gui_open evs w of
        None \<Rightarrow> None
      | Some opn \<Rightarrow>
          (case st of
             Waiting \<Rightarrow> None
           | Started \<Rightarrow> (if opn = Some u then Some None else None)
           | Finished \<Rightarrow> (if opn = None then Some (Some u) else None)))"

text \<open>
  The invariant of the two threads: the uuids of the list are distinct, the pending events
  alternate, and a job of the list with status started is the one open on the GUI's side.
\<close>

definition events_inv :: "state \<Rightarrow> bool" where
  "events_inv s =
     (distinct (map uuid (encode_list s)) \<and>
      (\<exists>opn. gui_open (encode_event s) (worker_open (worker s)) = Some opn \<and>
         (\<forall>j \<in> set (encode_list s). status j = Started \<longrightarrow> opn = Some (uuid j))))"

section \<open>The worker thread on its own, the shutdown and the pause\<close>


text \<open>The thread has ended with an exception.\<close>

fun raised :: "pc \<Rightarrow> bool" where
  "raised (Raised err j) = True"
| "raised w = False"

text \<open>
  The positions from which the job in hand can still end the thread with an exception:
  line 116, the start of the child process, the reads of its output and the inspection of
  the output file lie ahead (or the exception has been raised).
\<close>

fun may_raise :: "pc \<Rightarrow> bool" where
  "may_raise (L111 p) = True"
| "may_raise (L122 p tf) = True"
| "may_raise (L129 l) = True"
| "may_raise (L144 l) = True"
| "may_raise (L180 l) = True"
| "may_raise (Raised err j) = True"
| "may_raise w = False"

text \<open>
  The number of steps from a position to the end of the thread once the stop request is
  set and the queue holds the sentinel only.
\<close>

fun remaining :: "pc \<Rightarrow> nat" where
  "remaining (L111 p) = 11"
| "remaining (L122 p tf) = 10"
| "remaining (L129 l) = 9"
| "remaining (L144 l) = 8"
| "remaining (L180 l) = 7"
| "remaining (L205 p es sa) = 6"
| "remaining (L206 p es sa) = 5"
| "remaining (L208 p es sa) = 4"
| "remaining (L209 p es sa) = 3"
| "remaining L101 = 2"
| "remaining L104 = 1"
| "remaining Exited = 0"
| "remaining (Raised err j) = 0"

text \<open>
  The states after lines 766 to 774: the event loop has been left, the queue event is
  set, the queue holds the sentinel until the worker takes it, and the stop request is set
  until the worker clears it at line 206.
\<close>

definition closing :: "state \<Rightarrow> bool" where
  "closing s =
     (\<not> gui_alive s \<and> encode_queue_active s \<and>
      (encode_queue s = [Sentinel] \<or> encode_queue s = [] \<and> worker s = Exited) \<and>
      (may_raise (worker s) \<longrightarrow> stoprequest s))"

text \<open>
  The worker thread running alone on the job that it holds: it takes its steps in turn
  until it is back at line 101 (or has ended).
\<close>

fun finish_job :: "env list \<Rightarrow> state \<Rightarrow> state" where
  "finish_job [] s = s"
| "finish_job (e # es) s =
     (if job_of (worker s) = None then s
      else (case worker_step e s of None \<Rightarrow> s | Some s' \<Rightarrow> finish_job es s'))"

text \<open>
  A bound on the number of steps that the job in hand still takes; \<open>es\<close> is what the
  coming steps find outside the program. Before the child process is started the bound
  depends on the output that the start will find.
\<close>

fun job_left :: "env list \<Rightarrow> pc \<Rightarrow> nat" where
  "job_left (e1 # e2 # es) (L111 p) =
     (case spawned e2 of None \<Rightarrow> 2 | Some out \<Rightarrow> length out + 9)"
| "job_left es (L111 p) = 2"
| "job_left (e # es) (L122 p tf) =
     (case spawned e of None \<Rightarrow> 1 | Some out \<Rightarrow> length out + 8)"
| "job_left es (L122 p tf) = 1"
| "job_left es (L129 l) = length (stdout l) + 7"
| "job_left es (L144 l) = length (stdout l) + 6"
| "job_left es (L180 l) = 5"
| "job_left es (L205 p end_string sa) = 4"
| "job_left es (L206 p end_string sa) = 3"
| "job_left es (L208 p end_string sa) = 2"
| "job_left es (L209 p end_string sa) = 1"
| "job_left es w = 0"

text \<open>
  The states between a pause and the next press of "Pause queue", for a worker that held
  the job \<open>J\<close> at the pause: the worker holds no job or \<open>J\<close>, and either the queue event is
  clear and the worker is not at line 104, or the program is shutting down.
\<close>

definition held_back :: "job option \<Rightarrow> state \<Rightarrow> bool" where
  "held_back J s =
     ((job_of (worker s) = None \<or> job_of (worker s) = J) \<and>
      (closing s \<or> \<not> encode_queue_active s \<and> worker s \<noteq> L104))"

section \<open>The progress line of the specification's example\<close>

lemma re_split_example:
  "re_split ''frame=  120 fps= 45 q=28.0 size=   10240kB time=00:00:05.00'' =
     [[], ''  120 '', '' 45 '', ''28.0 '', ''   10240kB '', ''00:00:05.00'']"
  by code_simp

text \<open>
  \<^verbatim>\<open>int()\<close> and \<^verbatim>\<open>str.strip()\<close> differ on the separators 0x1C to 0x1F: stripped by
  the one, they make the other raise ValueError. The no-break space is skipped by both.
\<close>

lemma py_int_separator:
  "py_strip [CHR 0x1C, CHR ''0''] = ''0'' \<and> py_int [CHR 0x1C, CHR ''0''] = None \<and>
   py_int [CHR ''1'', CHR ''2'', CHR 0x1F] = None \<and>
   py_int [CHR 0xA0, CHR ''1'', CHR ''2'', CHR 0x0A] = Some 12"
  by code_simp

lemma py_int_example_frame: "py_int ''  120 '' = Some 120"
  by code_simp

lemma py_int_example_size: "py_int ''   10240 '' = Some 10240"
  by code_simp

text \<open>
  Claim C4. For the line
  \<^verbatim>\<open>frame=  120 fps= 45 q=28.0 size=   10240kB time=00:00:05.00\<close> and 1000 total frames,
  at any clock readings, \<open>process_line\<close> returns \<^verbatim>\<open>done_frames\<close> 120 and a sample whose
  percentage is \<open>100 - ((1000 - 120) / 1000 * 100) = 12\<close> and whose estimated size is
  \<open>(10240 / 1024 * 100) / 12\<close>, which is 83.33 to two decimals. (Computed in real numbers;
  the code computes in floating point.)
\<close>

theorem C4_example_line:
  "process_line 1000 st t1 t2 ''frame=  120 fps= 45 q=28.0 size=   10240kB time=00:00:05.00'' =
     Inr (120, \<lparr>frame = ''  120 '', frames_total = 1000, fps = '' 45 '',
                 percent_done = 100 - ((1000 - 120) / 1000 * 100),
                 est_size = (10240 / 1024 * 100) / 12, elapsed = t2 - st,
                 time_to_complete = format_seconds ((1000 - 120) * (t1 - st) / 120)\<rparr>)
   \<and> (100 - ((1000 - 120) / 1000 * 100) :: real) = 12
   \<and> \<bar>(10240 / 1024 * 100) / 12 - 83.33 :: real\<bar> < 0.01"
  by (simp add: process_line_def re_split_example py_int_example_frame py_int_example_size
        Let_def bind_err_def py_index_def int_or_raise_def py_truediv_def calc_time_def)

section \<open>Degraded progress lines\<close>

lemma process_line_no_zero_division:
  "process_line tf st t1 t2 line \<noteq> Inl ZeroDivisionError"
  by (auto simp: process_line_def Let_def bind_err_def py_index_def int_or_raise_def
        py_truediv_def split: sum.splits option.splits if_splits prod.splits)

lemma re_split_zero_frames:
  "re_split ''frame=    0 fps=0.0 q=0.0 size=       0kB time=00:00:00.00'' =
     [[], ''    0 '', ''0.0 '', ''0.0 '', ''       0kB '', ''00:00:00.00'']"
  by code_simp

lemma py_int_zero_frames: "py_int ''    0 '' = Some 0"
  by code_simp

lemma re_split_size_na:
  "re_split ''frame=  120 fps= 45 q=28.0 size=N/A time=00:00:05.00'' =
     [[], ''  120 '', '' 45 '', ''28.0 '', ''N/A '', ''00:00:05.00'']"
  by code_simp

lemma py_int_size_na: "py_int ''N/A '' = None"
  by code_simp

text \<open>
  Claim C8. No progress line makes \<open>process_line\<close> raise ZeroDivisionError, whatever the
  total and the clock readings. When the frame field reads 0 and the total is known
  (not 0), the remaining time is extrapolated with the divisor 1, that is from
  \<open>total_frames * elapsed / 1\<close>, and the line is published (given that the line has an fps
  field to print).
\<close>

theorem C8_zero_frames_divisor:
  "process_line tf st t1 t2 line \<noteq> Inl ZeroDivisionError \<and>
   (py_index (re_split line) 1 = Inr f \<and> py_int f = Some 0 \<and> tf \<noteq> 0 \<and>
    py_index (re_split line) 2 = Inr fp \<longrightarrow>
      process_line tf st t1 t2 line =
        Inr (0, \<lparr>frame = f, frames_total = tf, fps = fp, percent_done = 0, est_size = 0,
                  elapsed = t2 - st,
                  time_to_complete = format_seconds (of_int tf * (t1 - st) / 1)\<rparr>))"
proof (intro conjI impI)
  show "process_line tf st t1 t2 line \<noteq> Inl ZeroDivisionError"
    by (rule process_line_no_zero_division)
next
  assume "py_index (re_split line) 1 = Inr f \<and> py_int f = Some 0 \<and> tf \<noteq> 0 \<and>
    py_index (re_split line) 2 = Inr fp"
  then show "process_line tf st t1 t2 line =
        Inr (0, \<lparr>frame = f, frames_total = tf, fps = fp, percent_done = 0, est_size = 0,
                  elapsed = t2 - st,
                  time_to_complete = format_seconds (of_int tf * (t1 - st) / 1)\<rparr>)"
    by (simp add: process_line_def Let_def bind_err_def int_or_raise_def py_truediv_def
          calc_time_def)
qed

theorem C8_zero_frames_divisor_witness:
  "py_index (re_split ''frame=    0 fps=0.0 q=0.0 size=       0kB time=00:00:00.00'') 1 =
     Inr ''    0 '' \<and>
   py_int ''    0 '' = Some 0 \<and> (1000 :: int) \<noteq> 0 \<and>
   py_index (re_split ''frame=    0 fps=0.0 q=0.0 size=       0kB time=00:00:00.00'') 2 =
     Inr ''0.0 '' \<and>
   process_line 1000 10 12 13 ''frame=    0 fps=0.0 q=0.0 size=       0kB time=00:00:00.00'' =
     Inr (0, \<lparr>frame = ''    0 '', frames_total = 1000, fps = ''0.0 '', percent_done = 0,
               est_size = 0, elapsed = 3, time_to_complete = Minutes 33\<rparr>)"
  using C8_zero_frames_divisor [of 1000 10 12 13
      "''frame=    0 fps=0.0 q=0.0 size=       0kB time=00:00:00.00''" "''    0 ''" "''0.0 ''"]
  by (simp add: re_split_zero_frames py_int_zero_frames py_index_def format_seconds_def
        py_round_def)

text \<open>
  Claim C7, as the code has it. Take a progress line with a frame field that reads \<open>d\<close>
  and a size field that, with every \<^verbatim>\<open>kB\<close> deleted, is not an integer literal. If the
  total is known and the percentage computed from it is positive, \<open>process_line\<close> raises
  ValueError: no sample is published. Otherwise the size field is not read: the sample is
  published with the estimated size 0.
\<close>

theorem C7_size_not_a_number:
  assumes "py_index (re_split line) 1 = Inr f" and "py_int f = Some d"
    and "py_index (re_split line) 4 = Inr sz" and "py_int (replace_kB sz) = None"
  shows "process_line tf st t1 t2 line =
     (if tf \<noteq> 0 \<and> 0 < 100 - of_int (tf - d) / of_int tf * (100 :: real) then Inl ValueError
      else Inr (d, \<lparr>frame = f, frames_total = tf, fps = re_split line ! 2,
                     percent_done =
                       (if tf \<noteq> 0 then 100 - of_int (tf - d) / of_int tf * 100 else 0),
                     est_size = 0, elapsed = t2 - st,
                     time_to_complete =
                       (if tf \<noteq> 0
                        then format_seconds
                               (of_int (tf - d) * (t1 - st) / of_int (if d = 0 then 1 else d))
                        else No_time)\<rparr>))"
  using assms
  by (auto simp: process_line_def Let_def bind_err_def py_index_def int_or_raise_def
        py_truediv_def calc_time_def split: if_splits)

theorem C7_size_not_a_number_witness:
  "py_index (re_split ''frame=  120 fps= 45 q=28.0 size=N/A time=00:00:05.00'') 1 =
     Inr ''  120 '' \<and>
   py_int ''  120 '' = Some 120 \<and>
   py_index (re_split ''frame=  120 fps= 45 q=28.0 size=N/A time=00:00:05.00'') 4 =
     Inr ''N/A '' \<and>
   py_int (replace_kB ''N/A '') = None \<and>
   process_line 0 0 5 5 ''frame=  120 fps= 45 q=28.0 size=N/A time=00:00:05.00'' =
     Inr (120, \<lparr>frame = ''  120 '', frames_total = 0, fps = '' 45 '', percent_done = 0,
                 est_size = 0, elapsed = 5, time_to_complete = No_time\<rparr>) \<and>
   process_line 1000 0 5 6 ''frame=  120 fps= 45 q=28.0 size=N/A time=00:00:05.00'' =
     Inl ValueError"
  using C7_size_not_a_number [of "''frame=  120 fps= 45 q=28.0 size=N/A time=00:00:05.00''"
      "''  120 ''" 120 "''N/A ''" 0 0 5 5]
    C7_size_not_a_number [of "''frame=  120 fps= 45 q=28.0 size=N/A time=00:00:05.00''"
      "''  120 ''" 120 "''N/A ''" 1000 0 5 6]
  by (simp add: re_split_size_na py_int_size_na py_int_example_frame py_index_def)

theorem C7_size_na_counterexample:
  "process_line 1000 0 5 5 ''frame=  120 fps= 45 q=28.0 size=N/A time=00:00:05.00'' =
     Inl ValueError"
  by (simp add: process_line_def re_split_size_na py_int_size_na py_int_example_frame Let_def
        bind_err_def py_index_def int_or_raise_def py_truediv_def)

section \<open>The preamble and the start of a job\<close>

text \<open>
  Claim C5 on a run. The child process writes one line of information and two progress
  lines. At line 129 the worker reads up to and including the first progress line and
  collects the stripped line of information in \<^verbatim>\<open>msg\<close>. It then puts one message into
  \<^verbatim>\<open>gui_queue\<close>: the fixed text \<^verbatim>\<open>START ENCODE VIDEO\<close>. The collected text is in no
  message of the queue: line 138, which would put it, is commented out. When the output
  holds bytes that the text stream cannot decode, the read raises UnicodeDecodeError and
  no message is put at all.
\<close>

theorem C5_preamble_text_dropped:
  "preamble [] [Line ''Stream #0:0'', Line ''frame=    1 fps=0.0'', Line ''frame=    2 fps=0.0''] =
     Inr (''Stream #0:0'' @ [CHR 0x0A], [Line ''frame=    2 fps=0.0'']) \<and>
   (case exec [Gui (Input [General ''a.mkv'', Video (Some 1000) (Some 1048576)]),
               Gui (Start_encode ''a.mkv'' ''b.mkv'' ''id1'' [''ffmpeg'', ''-i'', ''a.mkv''] None),
               Worker \<lparr>clock = 0, clock2 = 0, spawned = None, inspected = Some []\<rparr>,
               Worker \<lparr>clock = 0, clock2 = 0, spawned = None, inspected = Some []\<rparr>,
               Worker \<lparr>clock = 0, clock2 = 0, spawned = None, inspected = Some []\<rparr>,
               Worker \<lparr>clock = 0, clock2 = 0,
                       spawned = Some [Line ''Stream #0:0'', Line ''frame=    1 fps=0.0'',
                                       Line ''frame=    2 fps=0.0''],
                       inspected = Some []\<rparr>,
               Worker \<lparr>clock = 0, clock2 = 0, spawned = None, inspected = Some []\<rparr>] init of
      None \<Rightarrow> False
    | Some s \<Rightarrow>
        gui_queue s = [Text ''Found ffmpeg'', Text ''START ENCODE VIDEO''] \<and>
        Text (''Stream #0:0'' @ [CHR 0x0A]) \<notin> set (gui_queue s) \<and>
        (case worker s of L144 l \<Rightarrow> stdout l = [Line ''frame=    2 fps=0.0''] | _ \<Rightarrow> False)) \<and>
   (case exec [Gui (Input [General ''a.mkv'', Video (Some 1000) (Some 1048576)]),
               Gui (Start_encode ''a.mkv'' ''b.mkv'' ''id1'' [''ffmpeg'', ''-i'', ''a.mkv''] None),
               Worker \<lparr>clock = 0, clock2 = 0, spawned = None, inspected = Some []\<rparr>,
               Worker \<lparr>clock = 0, clock2 = 0, spawned = None, inspected = Some []\<rparr>,
               Worker \<lparr>clock = 0, clock2 = 0, spawned = None, inspected = Some []\<rparr>,
               Worker \<lparr>clock = 0, clock2 = 0,
                       spawned = Some [Line ''Stream #0:0'', Undecodable,
                                       Line ''frame=    1 fps=0.0''],
                       inspected = Some []\<rparr>,
               Worker \<lparr>clock = 0, clock2 = 0, spawned = None, inspected = Some []\<rparr>] init of
      None \<Rightarrow> False
    | Some s \<Rightarrow>
        gui_queue s = [Text ''Found ffmpeg''] \<and>
        (case worker s of Raised err j \<Rightarrow> err = UnicodeDecodeError \<and> map_option uuid j = Some ''id1''
         | _ \<Rightarrow> False))"
  by code_simp

text \<open>
  Claim C6 at a job with no test encode and no frame count in the metadata: the worker
  raises TypeError at line 116, before the start of the job is announced and before any
  line is read. With a frame count of 0 the total is 0 and a progress line is published
  with the percentage 0, the estimated size 0 and an empty remaining time.
\<close>

theorem C6_unknown_total_frames:
  "map_option worker
     (exec [Gui (Input [General ''a.mkv'', Video None (Some 1048576)]),
            Gui (Start_encode ''a.mkv'' ''b.mkv'' ''id1'' [''ffmpeg'', ''-i'', ''a.mkv''] None),
            Worker \<lparr>clock = 0, clock2 = 0, spawned = None, inspected = Some []\<rparr>,
            Worker \<lparr>clock = 0, clock2 = 0, spawned = None, inspected = Some []\<rparr>,
            Worker \<lparr>clock = 0, clock2 = 0, spawned = None, inspected = Some []\<rparr>] init)
   = Some (Raised TypeError None)
   \<and> total_frames_of None None = Inl TypeError
   \<and> total_frames_of None (Some 0) = Inr 0
   \<and> process_line 0 0 5 5 ''frame=  120 fps= 45 q=28.0 size=   10240kB time=00:00:05.00'' =
       Inr (120, \<lparr>frame = ''  120 '', frames_total = 0, fps = '' 45 '', percent_done = 0,
                   est_size = 0, elapsed = 5, time_to_complete = No_time\<rparr>)"
  by code_simp

section \<open>The queue buttons\<close>

lemma remove_loop_no_match:
  "\<forall>j \<in> set (drop i xs). uuid j \<noteq> job_id \<or> status j = Started \<Longrightarrow> remove_loop job_id i xs = xs"
proof (induction job_id i xs rule: remove_loop.induct)
  case (1 job_id i xs)
  show ?case
  proof (cases "i < length xs")
    case True
    then have here: "xs ! i \<in> set (drop i xs)"
      by (simp add: Cons_nth_drop_Suc [symmetric])
    with "1.prems" have nm: "\<not> (uuid (xs ! i) = job_id \<and> status (xs ! i) \<noteq> Started)" by blast
    have "\<forall>j \<in> set (drop (Suc i) xs). uuid j \<noteq> job_id \<or> status j = Started"
      using "1.prems" set_drop_subset_set_drop [of i "Suc i" xs] by auto
    with "1.IH"(2) [OF True nm] have "remove_loop job_id (Suc i) xs = xs" by blast
    with True nm show ?thesis by (subst remove_loop.simps) auto
  next
    case False
    then show ?thesis by (subst remove_loop.simps) simp
  qed
qed

lemma remove_loop_filter:
  "distinct (map uuid xs) \<Longrightarrow>
   remove_loop job_id i xs =
     take i xs @ filter (\<lambda>j. \<not> (uuid j = job_id \<and> status j \<noteq> Started)) (drop i xs)"
proof (induction job_id i xs rule: remove_loop.induct)
  case (1 job_id i xs)
  show ?case
  proof (cases "i < length xs")
    case False
    then show ?thesis by (subst remove_loop.simps) simp
  next
    case True
    then have dr: "drop i xs = xs ! i # drop (Suc i) xs"
      by (simp add: Cons_nth_drop_Suc)
    show ?thesis
    proof (cases "uuid (xs ! i) = job_id \<and> status (xs ! i) \<noteq> Started")
      case False
      have "remove_loop job_id i xs = remove_loop job_id (Suc i) xs"
        using True False by (subst remove_loop.simps) auto
      also have "\<dots> = take (Suc i) xs @ filter (\<lambda>j. \<not> (uuid j = job_id \<and> status j \<noteq> Started)) (drop (Suc i) xs)"
        using "1.IH"(2) [OF True False "1.prems"] .
      finally show ?thesis using True False dr by (simp add: take_Suc_conv_app_nth)
    next
      case m: True
      have others: "\<forall>j \<in> set (drop (Suc i) xs). uuid j \<noteq> job_id"
      proof
        fix j assume j: "j \<in> set (drop (Suc i) xs)"
        have "distinct (map uuid (drop i xs))" using "1.prems" by (simp add: distinct_drop drop_map[symmetric])
        with dr have "uuid (xs ! i) \<notin> uuid ` set (drop (Suc i) xs)" by simp
        with j m show "uuid j \<noteq> job_id" by (metis imageI)
      qed
      have "remove_loop job_id i xs = remove_loop job_id (Suc i) (pop_at i xs)"
        using True m by (subst remove_loop.simps) auto
      also have "\<dots> = pop_at i xs"
      proof (rule remove_loop_no_match)
        have "set (drop (Suc i) (pop_at i xs)) \<subseteq> set (drop (Suc i) xs)"
          using True set_drop_subset_set_drop [of "Suc i" "Suc (Suc i)" xs]
          by (auto simp: pop_at_def)
        with others show "\<forall>j\<in>set (drop (Suc i) (pop_at i xs)). uuid j \<noteq> job_id \<or> status j = Started"
          by blast
      qed
      also have "\<dots> = take i xs @ filter (\<lambda>j. \<not> (uuid j = job_id \<and> status j \<noteq> Started)) (drop i xs)"
        using dr m others by (simp add: pop_at_def)
      finally show ?thesis .
    qed
  qed
qed

lemma remove_selection_filter:
  "distinct (map uuid xs) \<Longrightarrow>
   foldl (\<lambda>xs job_id. remove_loop job_id 0 xs) xs sel =
     filter (\<lambda>j. \<not> (uuid j \<in> set sel \<and> status j \<noteq> Started)) xs"
proof (induction sel arbitrary: xs)
  case Nil
  then show ?case by simp
next
  case (Cons a sel)
  have d: "distinct (map uuid (filter (\<lambda>j. \<not> (uuid j = a \<and> status j \<noteq> Started)) xs))"
    using Cons.prems by (rule distinct_map_filter)
  show ?case
    using Cons.IH [OF d] Cons.prems
    by (auto simp: remove_loop_filter intro: filter_cong)
qed

text \<open>
  Claim C2 on a run. The guard of line 665 reads the status text of the entry in
  \<^verbatim>\<open>encode_list\<close>, which only the poll of \<^verbatim>\<open>encode_event\<close> (lines 746 to 752) writes, one
  event per pass of the event loop. Here the worker has taken the job, announced its start,
  started the child process and reads its output at line 144, and the event loop has not
  read the announcement yet: the entry still says waiting. "Remove task" on that entry
  takes the job that is being encoded out of the list, with no error; the worker goes on
  with it. Once the status says started, the same button leaves the entry in the list,
  again with no error, and still rebuilds the queue (the pending \<^verbatim>\<open>_skip\<close> is lost).
\<close>

theorem C2_running_job_removed:
  "(case exec [Gui (Input [General ''a.mkv'', Video (Some 1000) (Some 1048576)]),
               Gui (Start_encode ''a.mkv'' ''b.mkv'' ''id1'' [''ffmpeg'', ''-i'', ''a.mkv''] None),
               Worker \<lparr>clock = 0, clock2 = 0, spawned = None, inspected = Some []\<rparr>,
               Worker \<lparr>clock = 0, clock2 = 0, spawned = None, inspected = Some []\<rparr>,
               Worker \<lparr>clock = 0, clock2 = 0, spawned = None, inspected = Some []\<rparr>,
               Worker \<lparr>clock = 0, clock2 = 0,
                       spawned = Some [Line ''Stream #0:0'', Line ''frame=    1 fps=0.0'',
                                       Line ''frame=    2 fps=0.0''],
                       inspected = Some []\<rparr>,
               Worker \<lparr>clock = 0, clock2 = 0, spawned = None, inspected = Some []\<rparr>] init of
      None \<Rightarrow> False
    | Some s \<Rightarrow>
        encode_running s \<and>
        (case worker s of L144 l \<Rightarrow> uuid (params l) = ''id1'' | _ \<Rightarrow> False) \<and>
        encode_event s = [(''id1'', Started)] \<and>
        map (\<lambda>j. (uuid j, status j)) (encode_list s) = [(''id1'', Waiting)] \<and>
        (case gui_step (Remove_task [''id1'']) s of
           None \<Rightarrow> False
         | Some s' \<Rightarrow>
             encode_list s' = [] \<and> encode_queue s' = [] \<and> worker s' = worker s \<and>
             encode_running s')) \<and>
   (case exec [Gui (Input [General ''a.mkv'', Video (Some 1000) (Some 1048576)]),
               Gui (Start_encode ''a.mkv'' ''b.mkv'' ''id1'' [''ffmpeg'', ''-i'', ''a.mkv''] None),
               Worker \<lparr>clock = 0, clock2 = 0, spawned = None, inspected = Some []\<rparr>,
               Worker \<lparr>clock = 0, clock2 = 0, spawned = None, inspected = Some []\<rparr>,
               Worker \<lparr>clock = 0, clock2 = 0, spawned = None, inspected = Some []\<rparr>,
               Gui Poll_event,
               Gui Pause_queue] init of
      None \<Rightarrow> False
    | Some s \<Rightarrow>
        map (\<lambda>j. (uuid j, status j)) (encode_list s) = [(''id1'', Started)] \<and>
        spec_remove ''id1'' (encode_list s) = Inl InvalidState \<and>
        encode_queue s = [Skip] \<and>
        gui_step (Remove_task [''id1'']) s = Some (s\<lparr>encode_queue := []\<rparr>))"
  by code_simp

section \<open>At most one job is shown as started\<close>

lemma events_inv_frame:
  "encode_list s' = encode_list s \<Longrightarrow> encode_event s' = encode_event s \<Longrightarrow>
   worker s' = worker s \<Longrightarrow> events_inv s' = events_inv s"
  by (simp add: events_inv_def)

lemma gui_open_put_started:
  "gui_open (evs @ [(u, Started)]) (Some u) = gui_open evs None"
  by (induction evs) (auto split: option.splits status.splits)

lemma gui_open_put_finished:
  "gui_open (evs @ [(u, Finished)]) None = gui_open evs (Some u)"
  by (induction evs) (auto split: option.splits status.splits)

lemma events_inv_init: "events_inv init"
  by (simp add: events_inv_def init_def)

lemma events_inv_frame_open:
  "encode_list s' = encode_list s \<Longrightarrow> encode_event s' = encode_event s \<Longrightarrow>
   worker_open (worker s') = worker_open (worker s) \<Longrightarrow> events_inv s' = events_inv s"
  by (simp add: events_inv_def)

lemma worker_step_events:
  assumes "worker_step e s = Some s'"
  shows "encode_list s' = encode_list s \<and>
    (encode_event s' = encode_event s \<and> worker_open (worker s') = worker_open (worker s) \<or>
     (\<exists>u. worker_open (worker s) = None \<and> worker_open (worker s') = Some u \<and>
          encode_event s' = encode_event s @ [(u, Started)]) \<or>
     (\<exists>u. worker_open (worker s) = Some u \<and> worker_open (worker s') = None \<and>
          encode_event s' = encode_event s @ [(u, Finished)]))"
proof (cases "worker s")
  case L101
  with assms show ?thesis by (auto simp: worker_step_def split: if_splits)
next
  case L104
  with assms show ?thesis
    by (auto simp: worker_step_def split: list.splits token.splits)
next
  case (L111 p)
  with assms show ?thesis by (auto simp: worker_step_def split: sum.splits)
next
  case (L122 p tf)
  with assms show ?thesis by (auto simp: worker_step_def split: option.splits)
next
  case (L129 l)
  with assms show ?thesis by (auto simp: worker_step_def split: sum.splits prod.splits)
next
  case (L144 l)
  with assms show ?thesis
    by (auto simp: worker_step_def
          split: if_splits list.splits chunk.splits sum.splits prod.splits)
next
  case (L180 l)
  with assms show ?thesis by (auto simp: worker_step_def split: option.splits)
next
  case (L205 p es sa)
  with assms show ?thesis by (auto simp: worker_step_def)
next
  case (L206 p es sa)
  with assms show ?thesis by (auto simp: worker_step_def)
next
  case (L208 p es sa)
  with assms show ?thesis by (auto simp: worker_step_def)
next
  case (L209 p es sa)
  with assms show ?thesis by (auto simp: worker_step_def)
next
  case Exited
  with assms show ?thesis by (simp add: worker_step_def)
next
  case (Raised err j)
  with assms show ?thesis by (simp add: worker_step_def)
qed

lemma events_inv_worker:
  assumes "events_inv s" and "worker_step e s = Some s'"
  shows "events_inv s'"
proof -
  from worker_step_events [OF assms(2)]
  have l: "encode_list s' = encode_list s"
    and c: "encode_event s' = encode_event s \<and> worker_open (worker s') = worker_open (worker s) \<or>
     (\<exists>u. worker_open (worker s) = None \<and> worker_open (worker s') = Some u \<and>
          encode_event s' = encode_event s @ [(u, Started)]) \<or>
     (\<exists>u. worker_open (worker s) = Some u \<and> worker_open (worker s') = None \<and>
          encode_event s' = encode_event s @ [(u, Finished)])"
    by blast+
  from c have "gui_open (encode_event s') (worker_open (worker s')) =
               gui_open (encode_event s) (worker_open (worker s))"
    by (auto simp: gui_open_put_started gui_open_put_finished)
  with l assms(1) show ?thesis by (simp add: events_inv_def)
qed

lemma mset_insert_at: "mset (insert_at k x ys) = add_mset x (mset ys)"
proof -
  have "mset (take k ys) + mset (drop k ys) = mset ys"
    by (metis append_take_drop_id mset_append)
  then show ?thesis by (simp add: insert_at_def)
qed

lemma mset_pop_at: "i < length xs \<Longrightarrow> add_mset (xs ! i) (mset (pop_at i xs)) = mset xs"
proof -
  assume "i < length xs"
  then have "xs = take i xs @ xs ! i # drop (Suc i) xs"
    by (rule id_take_nth_drop)
  then have "mset xs = mset (take i xs @ xs ! i # drop (Suc i) xs)"
    by simp
  then show ?thesis by (simp add: pop_at_def)
qed

lemma mset_up_loop: "mset (up_loop job_id i xs) = mset xs"
proof (induction job_id i xs rule: up_loop.induct)
  case (1 job_id i xs)
  show ?case
  proof (cases "i < length xs")
    case False
    then show ?thesis by (subst up_loop.simps) simp
  next
    case True
    show ?thesis
    proof (cases "uuid (xs ! i) = job_id \<and> i \<noteq> 0")
      case m: True
      have "up_loop job_id i xs = up_loop job_id (Suc i) (insert_at (i - 1) (xs ! i) (pop_at i xs))"
        using True m by (subst up_loop.simps) auto
      then show ?thesis
        using "1.IH"(1) [OF True m] True by (simp add: mset_insert_at mset_pop_at)
    next
      case False
      have "up_loop job_id i xs = up_loop job_id (Suc i) xs"
        using True False by (subst up_loop.simps) auto
      then show ?thesis using "1.IH"(2) [OF True False] by simp
    qed
  qed
qed

lemma mset_down_loop: "mset (down_loop job_id i xs) = mset xs"
proof (induction job_id i xs rule: down_loop.induct)
  case (1 job_id i xs)
  show ?case
  proof (cases "i < length xs")
    case False
    then show ?thesis by (subst down_loop.simps) simp
  next
    case True
    show ?thesis
    proof (cases "uuid (xs ! i) = job_id \<and> i \<noteq> length xs - 1")
      case m: True
      have "down_loop job_id i xs =
              down_loop job_id (Suc i) (insert_at (i + 1) (xs ! i) (pop_at i xs))"
        using True m by (subst down_loop.simps) auto
      then show ?thesis
        using "1.IH"(1) [OF True m] True by (simp add: mset_insert_at mset_pop_at)
    next
      case False
      have "down_loop job_id i xs = down_loop job_id (Suc i) xs"
        using True False by (subst down_loop.simps) auto
      then show ?thesis using "1.IH"(2) [OF True False] by simp
    qed
  qed
qed

lemma events_inv_permuted:
  assumes "events_inv s" and "mset ys = mset (encode_list s)"
  shows "events_inv (s\<lparr>encode_list := ys, encode_queue := q\<rparr>)"
proof -
  have "mset (map uuid ys) = mset (map uuid (encode_list s))"
    using assms(2) by (metis mset_map)
  then have d: "distinct (map uuid ys) = distinct (map uuid (encode_list s))"
    by (rule mset_eq_imp_distinct_iff)
  have "set ys = set (encode_list s)"
    using assms(2) by (rule mset_eq_setD)
  with d assms(1) show ?thesis
    by (simp add: events_inv_def)
qed

lemma events_inv_filtered:
  assumes "events_inv s"
  shows "events_inv (s\<lparr>encode_list := filter P (encode_list s), encode_queue := q\<rparr>)"
  using assms by (auto simp: events_inv_def distinct_map_filter)

lemma uuid_set_status:
  "uuid \<circ> (\<lambda>j. if uuid j = u then j\<lparr>status := st\<rparr> else j) = uuid"
  by (auto simp: fun_eq_iff)

lemma events_inv_poll_event:
  assumes "events_inv s"
  shows "events_inv (poll_event s)"
proof (cases "encode_event s")
  case Nil
  then show ?thesis using assms by (simp add: poll_event_def)
next
  case (Cons ev evs)
  obtain u st where ev: "ev = (u, st)" by (cases ev)
  from assms obtain opn where o: "gui_open (encode_event s) (worker_open (worker s)) = Some opn"
    and a: "\<forall>j \<in> set (encode_list s). status j = Started \<longrightarrow> opn = Some (uuid j)"
    and d: "distinct (map uuid (encode_list s))"
    by (auto simp: events_inv_def)
  have ps: "poll_event s =
      s\<lparr>encode_event := evs,
        encode_list := map (\<lambda>j. if uuid j = u then j\<lparr>status := st\<rparr> else j) (encode_list s)\<rparr>"
    using Cons ev by (simp add: poll_event_def)
  show ?thesis
  proof (cases st)
    case Waiting
    with o Cons ev show ?thesis by (simp split: option.splits)
  next
    case Started
    with o Cons ev have g: "gui_open evs (worker_open (worker s)) = Some (Some u)" and n: "opn = None"
      by (auto split: option.splits if_splits)
    from a n have "\<forall>j \<in> set (encode_list s). status j \<noteq> Started" by auto
    with g d Started show ?thesis
      unfolding ps events_inv_def by (auto simp: uuid_set_status)
  next
    case Finished
    with o Cons ev have g: "gui_open evs (worker_open (worker s)) = Some None" and n: "opn = Some u"
      by (auto split: option.splits if_splits)
    from a n have "\<forall>j \<in> set (encode_list s). status j = Started \<longrightarrow> uuid j = u" by auto
    with g d Finished show ?thesis
      unfolding ps events_inv_def by (auto simp: uuid_set_status)
  qed
qed

lemma events_inv_start_encode:
  assumes "events_inv s" and "job_id \<notin> set (map uuid (encode_list s))"
  shows "events_inv (start_encode i out job_id cmd nf s)"
  using assms
  by (auto simp: start_encode_def build_encode_queue_def events_inv_def
      split: option.splits)

lemma events_inv_remove_task:
  assumes "events_inv s"
  shows "events_inv (remove_task sel s)"
proof -
  have d: "distinct (map uuid (encode_list s))" using assms by (simp add: events_inv_def)
  have "events_inv (s\<lparr>encode_list :=
          filter (\<lambda>j. \<not> (uuid j \<in> set sel \<and> status j \<noteq> Started)) (encode_list s),
        encode_queue := encode_queue s\<rparr>)"
    using assms by (rule events_inv_filtered)
  then show ?thesis
    by (simp add: remove_task_def build_encode_queue_def remove_selection_filter [OF d]
        events_inv_def)
qed

lemma events_inv_move_up:
  assumes "events_inv s"
  shows "events_inv (move_up sel s)"
proof -
  have "events_inv (s\<lparr>encode_list := up_loop (sel ! 0) 0 (encode_list s),
      encode_queue := encode_queue s\<rparr>)"
    using assms mset_up_loop by (rule events_inv_permuted)
  with assms show ?thesis
    by (simp add: move_up_def build_encode_queue_def events_inv_def)
qed

lemma events_inv_move_down:
  assumes "events_inv s"
  shows "events_inv (move_down sel s)"
proof -
  have "events_inv (s\<lparr>encode_list := down_loop (sel ! 0) 0 (encode_list s),
      encode_queue := encode_queue s\<rparr>)"
    using assms mset_down_loop by (rule events_inv_permuted)
  with assms show ?thesis
    by (simp add: move_down_def build_encode_queue_def events_inv_def)
qed

lemma events_inv_gui:
  assumes "events_inv s" and "gui_step a s = Some s'"
  shows "events_inv s'"
proof (cases a)
  case (Input ts)
  with assms(2) have "s' = s\<lparr>video_metadata := analyse_input ts (video_metadata s)\<rparr>"
    by (simp add: gui_step_def)
  with assms(1) show ?thesis by (simp add: events_inv_def)
next
  case (Start_encode i out job_id cmd nf)
  with assms(2) have "job_id \<notin> set (map uuid (encode_list s))"
    and "s' = start_encode i out job_id cmd nf s"
    by (auto simp: gui_step_def split: if_splits)
  with assms(1) show ?thesis by (simp add: events_inv_start_encode)
next
  case (Remove_task sel)
  with assms show ?thesis by (auto simp: gui_step_def events_inv_remove_task)
next
  case (Up sel)
  with assms show ?thesis by (auto simp: gui_step_def events_inv_move_up)
next
  case (Down sel)
  with assms show ?thesis by (auto simp: gui_step_def events_inv_move_down)
next
  case Stop_encode
  with assms(2) have "s' = stop_encode s" by (simp add: gui_step_def)
  with assms(1) show ?thesis by (simp add: stop_encode_def events_inv_def Let_def)
next
  case Pause_queue
  with assms(2) have "s' = pause_button s" by (simp add: gui_step_def)
  with assms(1) show ?thesis
    by (simp add: pause_button_def toggle_queue_def events_inv_def Let_def)
next
  case Poll_status
  with assms(2) have "s' = poll_status s" by (simp add: gui_step_def)
  with assms(1) show ?thesis by (simp add: poll_status_def events_inv_def)
next
  case Poll_message
  with assms(2) have "s' = poll_message s" by (simp add: gui_step_def)
  with assms(1) show ?thesis by (simp add: poll_message_def events_inv_def)
next
  case Poll_event
  with assms show ?thesis by (auto simp: gui_step_def events_inv_poll_event)
next
  case Exit
  with assms(2) have "s' = shutdown s" by (simp add: gui_step_def)
  with assms(1) show ?thesis by (simp add: shutdown_def events_inv_def)
qed

lemma events_inv_step:
  assumes "events_inv s" and "step a s = Some s'"
  shows "events_inv s'"
proof (cases a)
  case (Worker e)
  with assms(2) have "worker_step e s = Some s'" by (simp add: step_def)
  with assms(1) show ?thesis by (rule events_inv_worker)
next
  case (Gui g)
  with assms(2) have "gui_step g s = Some s'" by (simp add: step_def split: if_splits)
  with assms(1) show ?thesis by (rule events_inv_gui)
qed

lemma reachable_events_inv: "reachable s \<Longrightarrow> events_inv s"
proof (induction rule: reachable.induct)
  case reachable_init
  show ?case by (rule events_inv_init)
next
  case (reachable_step s a s')
  then show ?case using events_inv_step by blast
qed

lemma at_most_one_same_uuid:
  assumes "distinct (map uuid xs)" and "\<forall>j \<in> set xs. P j \<longrightarrow> uuid j = u"
  shows "length (filter P xs) \<le> 1"
proof -
  have d: "distinct (map uuid (filter P xs))" using assms(1) by (rule distinct_map_filter)
  have a: "\<forall>j \<in> set (filter P xs). uuid j = u" using assms(2) by simp
  show ?thesis
  proof (cases "filter P xs")
    case Nil
    then show ?thesis by simp
  next
    case (Cons x ys)
    show ?thesis
    proof (cases ys)
      case Nil
      with Cons show ?thesis by simp
    next
      case (Cons y zs)
      with \<open>filter P xs = x # ys\<close> d a show ?thesis by auto
    qed
  qed
qed

text \<open>
  Claim C3. In every state that the two threads can reach, by any interleaving of the
  worker's steps with the handlers of the GUI (adding a job, the queue buttons, pause and
  resume, stop, the polls, exit), at most one job of \<^verbatim>\<open>encode_list\<close> has the status
  started.
\<close>

theorem C3_at_most_one_running:
  assumes "reachable s"
  shows "length (filter (\<lambda>j. status j = Started) (encode_list s)) \<le> 1"
proof -
  have inv: "events_inv s" using assms by (rule reachable_events_inv)
  then obtain opn where o: "gui_open (encode_event s) (worker_open (worker s)) = Some opn"
    and a: "\<forall>j \<in> set (encode_list s). status j = Started \<longrightarrow> opn = Some (uuid j)"
    by (auto simp: events_inv_def)
  have d: "distinct (map uuid (encode_list s))" using inv by (simp add: events_inv_def)
  show ?thesis
  proof (cases opn)
    case None
    with a have "filter (\<lambda>j. status j = Started) (encode_list s) = []"
      by (auto simp: filter_empty_conv)
    then show ?thesis by simp
  next
    case (Some u)
    with a have "\<forall>j \<in> set (encode_list s). status j = Started \<longrightarrow> uuid j = u" by auto
    with d show ?thesis by (rule at_most_one_same_uuid)
  qed
qed

lemma exec_reachable: "reachable s \<Longrightarrow> exec as s = Some s' \<Longrightarrow> reachable s'"
proof (induction as arbitrary: s)
  case Nil
  then show ?case by simp
next
  case (Cons a as)
  from Cons.prems(2) obtain s1 where a: "step a s = Some s1" and r: "exec as s1 = Some s'"
    by (auto split: option.splits)
  from Cons.prems(1) a have "reachable s1" by (rule reachable_step)
  then show ?case using r by (rule Cons.IH)
qed

lemma two_jobs_trace:
  "case exec [Gui (Input [General ''a.mkv'', Video (Some 1000) (Some 1048576)]),
            Gui (Start_encode ''a.mkv'' ''a2.mkv'' ''id1'' [''ffmpeg'', ''-i'', ''a.mkv''] None),
            Gui (Start_encode ''a.mkv'' ''a3.mkv'' ''id2'' [''ffmpeg'', ''-i'', ''a.mkv''] None),
            Worker \<lparr>clock = 0, clock2 = 0, spawned = None, inspected = Some []\<rparr>,
            Worker \<lparr>clock = 0, clock2 = 0, spawned = None, inspected = Some []\<rparr>,
            Worker \<lparr>clock = 0, clock2 = 0, spawned = None, inspected = Some []\<rparr>,
            Gui Poll_event] init of
     None \<Rightarrow> False
   | Some s \<Rightarrow>
       map (\<lambda>j. (uuid j, status j)) (encode_list s) = [(''id1'', Started), (''id2'', Waiting)]"
  by code_simp

theorem C3_at_most_one_running_witness:
  "\<exists>s. reachable s \<and>
       map (\<lambda>j. (uuid j, status j)) (encode_list s) = [(''id1'', Started), (''id2'', Waiting)] \<and>
       length (filter (\<lambda>j. status j = Started) (encode_list s)) \<le> 1"
proof -
  define tr where "tr =
           [Gui (Input [General ''a.mkv'', Video (Some 1000) (Some 1048576)]),
            Gui (Start_encode ''a.mkv'' ''a2.mkv'' ''id1'' [''ffmpeg'', ''-i'', ''a.mkv''] None),
            Gui (Start_encode ''a.mkv'' ''a3.mkv'' ''id2'' [''ffmpeg'', ''-i'', ''a.mkv''] None),
            Worker \<lparr>clock = 0, clock2 = 0, spawned = None, inspected = Some []\<rparr>,
            Worker \<lparr>clock = 0, clock2 = 0, spawned = None, inspected = Some []\<rparr>,
            Worker \<lparr>clock = 0, clock2 = 0, spawned = None, inspected = Some []\<rparr>,
            Gui Poll_event]"
  have t: "case exec tr init of None \<Rightarrow> False
     | Some s \<Rightarrow> map (\<lambda>j. (uuid j, status j)) (encode_list s) =
         [(''id1'', Started), (''id2'', Waiting)]"
    unfolding tr_def by (rule two_jobs_trace)
  then obtain s where e: "exec tr init = Some s"
    and l: "map (\<lambda>j. (uuid j, status j)) (encode_list s) = [(''id1'', Started), (''id2'', Waiting)]"
    by (cases "exec tr init") (simp_all only: option.case)
  from reachable_init e have r: "reachable s" by (rule exec_reachable)
  from r have c: "length (filter (\<lambda>j. status j = Started) (encode_list s)) \<le> 1"
    by (rule C3_at_most_one_running)
  show ?thesis
  proof (intro exI conjI)
    show "reachable s" by (rule r)
    show "map (\<lambda>j. (uuid j, status j)) (encode_list s) = [(''id1'', Started), (''id2'', Waiting)]"
      by (rule l)
    show "length (filter (\<lambda>j. status j = Started) (encode_list s)) \<le> 1" by (rule c)
  qed
qed

section \<open>Stopping a job\<close>

text \<open>
  Claim C1. The worker has one way out of a job, lines 205 to 210, and the event that it
  puts there is always "finished": a job that "Stop encode" interrupts while a progress
  line is still unread ends with the status finished (first trace). The status finished
  is not final either: a job that the worker has taken from the queue and not announced
  yet is still waiting in \<^verbatim>\<open>encode_list\<close>, so a second "Start encode" puts it into the
  queue again, and after it has finished the worker takes it again and it is started a
  second time (second trace).
\<close>

theorem C1_stopped_job_is_finished:
  "(case exec [Gui (Input [General ''a.mkv'', Video (Some 1000) (Some 1048576)]),
              Gui (Start_encode ''a.mkv'' ''a2.mkv'' ''id1'' [''ffmpeg'', ''-i'', ''a.mkv''] None),
              Worker \<lparr>clock = 0, clock2 = 0, spawned = None, inspected = Some []\<rparr>,
              Worker \<lparr>clock = 0, clock2 = 0, spawned = None, inspected = Some []\<rparr>,
              Worker \<lparr>clock = 0, clock2 = 0, spawned = None, inspected = Some []\<rparr>,
              Gui Poll_event,
              Worker \<lparr>clock = 0, clock2 = 0,
                      spawned = Some [Line ''ffmpeg version 4'',
                                      Line ''frame=    1 fps=0.0 q=0.0 size=       0kB'',
                                      Line ''frame=   50 fps= 45 q=28.0 size=     512kB''],
                      inspected = Some []\<rparr>,
              Worker \<lparr>clock = 1, clock2 = 1, spawned = None, inspected = Some []\<rparr>] init of
      None \<Rightarrow> False
    | Some s \<Rightarrow>
        map (\<lambda>j. (uuid j, status j)) (encode_list s) = [(''id1'', Started)] \<and>
        encode_running s \<and> \<not> stoprequest s \<and>
        (case worker s of
           L144 l \<Rightarrow> stdout l = [Line ''frame=   50 fps= 45 q=28.0 size=     512kB'']
         | _ \<Rightarrow> False) \<and>
        (case exec [Gui Stop_encode,
                    Worker \<lparr>clock = 2, clock2 = 2, spawned = None, inspected = Some []\<rparr>,
                    Worker \<lparr>clock = 2, clock2 = 2, spawned = None, inspected = Some []\<rparr>,
                    Worker \<lparr>clock = 2, clock2 = 2, spawned = None, inspected = Some []\<rparr>,
                    Worker \<lparr>clock = 2, clock2 = 2, spawned = None, inspected = Some []\<rparr>,
                    Worker \<lparr>clock = 2, clock2 = 2, spawned = None, inspected = Some []\<rparr>,
                    Worker \<lparr>clock = 2, clock2 = 2, spawned = None, inspected = Some []\<rparr>,
                    Gui Poll_event] s of
           None \<Rightarrow> False
         | Some s' \<Rightarrow>
             map (\<lambda>j. (uuid j, status j)) (encode_list s') = [(''id1'', Finished)] \<and>
             worker s' = L101 \<and> encode_event s' = [] \<and>
             Text ''Reiceived kill signal, stopping...'' \<in> set (gui_queue s'))) \<and>
   (case exec [Gui (Input [General ''a.mkv'', Video (Some 1000) (Some 1048576)]),
              Gui (Start_encode ''a.mkv'' ''a2.mkv'' ''id1'' [''ffmpeg'', ''-i'', ''a.mkv''] None),
              Worker \<lparr>clock = 0, clock2 = 0, spawned = None, inspected = Some []\<rparr>,
              Worker \<lparr>clock = 0, clock2 = 0, spawned = None, inspected = Some []\<rparr>,
              Gui (Start_encode ''a.mkv'' ''a3.mkv'' ''id2'' [''ffmpeg'', ''-i'', ''a.mkv''] None),
              Worker \<lparr>clock = 0, clock2 = 0, spawned = None, inspected = Some []\<rparr>,
              Worker \<lparr>clock = 0, clock2 = 0, spawned = Some [], inspected = Some []\<rparr>,
              Worker \<lparr>clock = 0, clock2 = 0, spawned = None, inspected = Some []\<rparr>,
              Worker \<lparr>clock = 0, clock2 = 0, spawned = None, inspected = Some []\<rparr>,
              Worker \<lparr>clock = 0, clock2 = 0, spawned = None, inspected = Some []\<rparr>,
              Worker \<lparr>clock = 0, clock2 = 0, spawned = None, inspected = Some []\<rparr>,
              Worker \<lparr>clock = 0, clock2 = 0, spawned = None, inspected = Some []\<rparr>,
              Worker \<lparr>clock = 0, clock2 = 0, spawned = None, inspected = Some []\<rparr>,
              Worker \<lparr>clock = 0, clock2 = 0, spawned = None, inspected = Some []\<rparr>,
              Gui Poll_event,
              Gui Poll_event] init of
      None \<Rightarrow> False
    | Some s \<Rightarrow>
        map (\<lambda>j. (uuid j, status j)) (encode_list s) = [(''id1'', Finished), (''id2'', Waiting)] \<and>
        (case exec [Worker \<lparr>clock = 0, clock2 = 0, spawned = None, inspected = Some []\<rparr>,
                    Worker \<lparr>clock = 0, clock2 = 0, spawned = None, inspected = Some []\<rparr>,
                    Worker \<lparr>clock = 0, clock2 = 0, spawned = None, inspected = Some []\<rparr>,
                    Gui Poll_event] s of
           None \<Rightarrow> False
         | Some s' \<Rightarrow>
             map (\<lambda>j. (uuid j, status j)) (encode_list s') =
               [(''id1'', Started), (''id2'', Waiting)]))"
  by code_simp

section \<open>Shutdown with jobs pending\<close>

lemma closing_shutdown: "closing (shutdown s)"
  by (simp add: closing_def shutdown_def)

lemma closing_worker_step:
  assumes "closing s" and "worker_step e s = Some s1"
  shows "closing s1 \<and> encode_list s1 = encode_list s \<and>
    (job_of (worker s1) = None \<or> job_of (worker s1) = job_of (worker s)) \<and>
    (\<exists>evs. encode_event s1 = encode_event s @ evs \<and>
       (\<forall>ev \<in> set evs. Some (fst ev) = map_option uuid (job_of (worker s)))) \<and>
    (may_raise (worker s1) \<longrightarrow> may_raise (worker s)) \<and>
    (raised (worker s1) \<or> remaining (worker s1) < remaining (worker s))"
proof (cases "worker s")
  case L101
  with assms show ?thesis by (auto simp: worker_step_def closing_def split: if_splits)
next
  case L104
  with assms show ?thesis
    by (auto simp: worker_step_def closing_def split: list.splits token.splits)
next
  case (L111 p)
  with assms show ?thesis by (auto simp: worker_step_def closing_def split: sum.splits)
next
  case (L122 p tf)
  with assms show ?thesis by (auto simp: worker_step_def closing_def split: option.splits)
next
  case (L129 l)
  with assms show ?thesis
    by (auto simp: worker_step_def closing_def split: sum.splits prod.splits)
next
  case (L144 l)
  with assms show ?thesis
    by (auto simp: worker_step_def closing_def)
next
  case (L180 l)
  with assms show ?thesis by (auto simp: worker_step_def closing_def split: option.splits)
next
  case (L205 p es sa)
  with assms show ?thesis by (auto simp: worker_step_def closing_def)
next
  case (L206 p es sa)
  with assms show ?thesis by (auto simp: worker_step_def closing_def)
next
  case (L208 p es sa)
  with assms show ?thesis by (auto simp: worker_step_def closing_def)
next
  case (L209 p es sa)
  with assms show ?thesis by (auto simp: worker_step_def closing_def)
next
  case Exited
  with assms show ?thesis by (simp add: worker_step_def)
next
  case (Raised err j)
  with assms show ?thesis by (simp add: worker_step_def)
qed


lemma closing_step:
  assumes "closing s" and "step a s = Some s1"
  shows "closing s1 \<and> encode_list s1 = encode_list s \<and>
    (job_of (worker s1) = None \<or> job_of (worker s1) = job_of (worker s)) \<and>
    (\<exists>evs. encode_event s1 = encode_event s @ evs \<and>
       (\<forall>ev \<in> set evs. Some (fst ev) = map_option uuid (job_of (worker s)))) \<and>
    (may_raise (worker s1) \<longrightarrow> may_raise (worker s))"
proof (cases a)
  case (Worker e)
  with assms(2) have "worker_step e s = Some s1" by (simp add: step_def)
  with assms(1) show ?thesis using closing_worker_step by blast
next
  case (Gui g)
  with assms show ?thesis by (simp add: step_def closing_def)
qed











section \<open>Pausing the queue\<close>

lemma preamble_shorter:
  "preamble msg ls = Inr (m, rest) \<Longrightarrow> length rest \<le> length ls"
  by (induction msg ls rule: preamble.induct) (auto split: if_splits)

lemma pause_commutes:
  assumes "job_of (worker s) \<noteq> None"
  shows "worker_step e (pause_button s) = map_option pause_button (worker_step e s)"
proof (cases "worker s")
  case L101
  with assms show ?thesis by simp
next
  case L104
  with assms show ?thesis by simp
next
  case (L111 p)
  then show ?thesis
    by (simp add: worker_step_def pause_button_def toggle_queue_def Let_def split: sum.splits)
next
  case (L122 p tf)
  then show ?thesis
    by (simp add: worker_step_def pause_button_def toggle_queue_def Let_def
          split: option.splits)
next
  case (L129 l)
  then show ?thesis
    by (simp add: worker_step_def pause_button_def toggle_queue_def Let_def
          split: sum.splits prod.splits)
next
  case (L144 l)
  then show ?thesis
    by (simp add: worker_step_def pause_button_def toggle_queue_def Let_def
          split: list.splits chunk.splits sum.splits prod.splits)
next
  case (L180 l)
  then show ?thesis
    by (simp add: worker_step_def pause_button_def toggle_queue_def Let_def
          split: option.splits)
next
  case (L205 p es sa)
  then show ?thesis
    by (simp add: worker_step_def pause_button_def toggle_queue_def Let_def)
next
  case (L206 p es sa)
  then show ?thesis
    by (simp add: worker_step_def pause_button_def toggle_queue_def Let_def)
next
  case (L208 p es sa)
  then show ?thesis
    by (simp add: worker_step_def pause_button_def toggle_queue_def Let_def)
next
  case (L209 p es sa)
  then show ?thesis
    by (simp add: worker_step_def pause_button_def toggle_queue_def Let_def)
next
  case Exited
  with assms show ?thesis by simp
next
  case (Raised err j)
  then show ?thesis
    by (simp add: worker_step_def pause_button_def toggle_queue_def Let_def)
qed

lemma pause_button_worker: "worker (pause_button s) = worker s"
  by (simp add: pause_button_def toggle_queue_def Let_def)

lemma finish_job_pause: "finish_job es (pause_button s) = pause_button (finish_job es s)"
proof (induction es arbitrary: s)
  case Nil
  show ?case by simp
next
  case (Cons e es)
  show ?case
  proof (cases "job_of (worker s) = None")
    case True
    then show ?thesis by (simp add: pause_button_worker)
  next
    case False
    then have c: "worker_step e (pause_button s) = map_option pause_button (worker_step e s)"
      by (rule pause_commutes)
    from False obtain p where p: "job_of (worker s) = Some p" by auto
    show ?thesis
    proof (cases "worker_step e s")
      case None
      with c p show ?thesis by (simp add: pause_button_worker)
    next
      case (Some t)
      with c p Cons.IH [of t] show ?thesis by (simp add: pause_button_worker)
    qed
  qed
qed

lemma job_step:
  assumes "job_of (worker s) \<noteq> None" and "\<not> raised (worker s)"
  shows "\<exists>t. worker_step e s = Some t \<and>
           (job_of (worker t) = None \<or> job_of (worker t) = job_of (worker s)) \<and>
           (raised (worker t) \<or>
            job_left es (worker t) < job_left (e # es) (worker s) \<and>
            (worker t = L101 \<or> job_of (worker t) \<noteq> None))"
proof (cases "worker s")
  case L101
  with assms show ?thesis by simp
next
  case L104
  with assms show ?thesis by simp
next
  case (L111 p)
  then show ?thesis
    by (cases es) (auto simp: worker_step_def split: sum.splits option.splits)
next
  case (L122 p tf)
  then show ?thesis by (auto simp: worker_step_def split: option.splits)
next
  case (L129 l)
  then show ?thesis
    using preamble_shorter [of "[]" "stdout l"]
    by (auto simp: worker_step_def split: sum.splits prod.splits)
next
  case (L144 l)
  then show ?thesis
    by (auto simp: worker_step_def split: list.splits chunk.splits sum.splits prod.splits)
next
  case (L180 l)
  then show ?thesis by (auto simp: worker_step_def split: option.splits)
next
  case (L205 p es sa)
  then show ?thesis by (auto simp: worker_step_def)
next
  case (L206 p es sa)
  then show ?thesis by (auto simp: worker_step_def)
next
  case (L208 p es sa)
  then show ?thesis by (auto simp: worker_step_def)
next
  case (L209 p es sa)
  then show ?thesis by (auto simp: worker_step_def)
next
  case Exited
  with assms show ?thesis by simp
next
  case (Raised err j)
  with assms show ?thesis by simp
qed

lemma finish_job_raised: "raised (worker s) \<Longrightarrow> finish_job es s = s"
  by (cases es; cases "worker s") (simp_all add: worker_step_def)

lemma job_left_zero:
  "job_left es w = 0 \<Longrightarrow> w = L101 \<or> job_of w \<noteq> None \<Longrightarrow> w = L101 \<or> raised w"
  by (cases "(es, w)" rule: job_left.cases) (auto split: option.splits)

lemma finish_job_ends:
  assumes "worker s = L101 \<or> job_of (worker s) \<noteq> None"
    and "job_left es (worker s) \<le> length es"
  shows "worker (finish_job es s) = L101 \<or> raised (worker (finish_job es s))"
  using assms
proof (induction es arbitrary: s)
  case Nil
  then show ?case using job_left_zero [of "[]" "worker s"] by simp
next
  case (Cons e es)
  show ?case
  proof (cases "worker s = L101 \<or> raised (worker s)")
    case True
    then show ?thesis
    proof
      assume "worker s = L101"
      then show ?thesis by simp
    next
      assume r: "raised (worker s)"
      then have "finish_job (e # es) s = s" by (rule finish_job_raised)
      with r show ?thesis by simp
    qed
  next
    case False
    with Cons.prems(1) have j: "job_of (worker s) \<noteq> None" and nr: "\<not> raised (worker s)"
      by auto
    from job_step [OF j nr, of e es] obtain t where st: "worker_step e s = Some t"
      and d: "raised (worker t) \<or>
            job_left es (worker t) < job_left (e # es) (worker s) \<and>
            (worker t = L101 \<or> job_of (worker t) \<noteq> None)" by blast
    from j obtain p where "job_of (worker s) = Some p" by auto
    with st have f: "finish_job (e # es) s = finish_job es t" by simp
    from d show ?thesis
    proof
      assume r: "raised (worker t)"
      then have "finish_job es t = t" by (rule finish_job_raised)
      with f r show ?thesis by simp
    next
      assume a: "job_left es (worker t) < job_left (e # es) (worker s) \<and>
            (worker t = L101 \<or> job_of (worker t) \<noteq> None)"
      with Cons.prems(2) have "job_left es (worker t) \<le> length es" by simp
      with a Cons.IH [of t] f show ?thesis by simp
    qed
  qed
qed

lemma gui_step_frame:
  assumes "gui_step g s = Some t" and "g \<noteq> Pause_queue" and "g \<noteq> Exit"
  shows "worker t = worker s \<and> (encode_queue_active t \<longrightarrow> encode_queue_active s)"
proof (cases g)
  case (Input ts)
  with assms show ?thesis by (auto simp: gui_step_def)
next
  case (Start_encode inp outp job_id cmd n_frames)
  with assms show ?thesis
    by (auto simp: gui_step_def start_encode_def build_encode_queue_def
          split: if_splits option.splits)
next
  case (Remove_task sel)
  with assms show ?thesis by (auto simp: gui_step_def remove_task_def build_encode_queue_def)
next
  case (Up sel)
  with assms show ?thesis
    by (auto simp: gui_step_def move_up_def build_encode_queue_def split: if_splits)
next
  case (Down sel)
  with assms show ?thesis
    by (auto simp: gui_step_def move_down_def build_encode_queue_def split: if_splits)
next
  case Stop_encode
  with assms show ?thesis
    by (auto simp: gui_step_def stop_encode_def Let_def split: if_splits)
next
  case Pause_queue
  with assms show ?thesis by simp
next
  case Poll_status
  with assms show ?thesis by (auto simp: gui_step_def poll_status_def)
next
  case Poll_message
  with assms show ?thesis by (auto simp: gui_step_def poll_message_def)
next
  case Poll_event
  with assms show ?thesis by (auto simp: gui_step_def poll_event_def split: list.splits)
next
  case Exit
  with assms show ?thesis by simp
qed

lemma held_back_step:
  assumes "held_back J s" and "step a s = Some t" and "a \<noteq> Gui Pause_queue"
  shows "held_back J t"
proof (cases "closing s")
  case True
  from closing_step [OF True assms(2)]
  have "closing t" and "job_of (worker t) = None \<or> job_of (worker t) = job_of (worker s)"
    by blast+
  with assms(1) show ?thesis by (auto simp: held_back_def)
next
  case False
  with assms(1) have j: "job_of (worker s) = None \<or> job_of (worker s) = J"
    and na: "\<not> encode_queue_active s" and nl: "worker s \<noteq> L104"
    by (auto simp: held_back_def)
  show ?thesis
  proof (cases a)
    case (Worker e)
    with assms(2) have ws: "worker_step e s = Some t" by (simp add: step_def)
    show ?thesis
    proof (cases "job_of (worker s) = None")
      case True
      with ws na nl show ?thesis
        by (cases "worker s") (auto simp: worker_step_def)
    next
      case jn: False
      have nr: "\<not> raised (worker s)" using ws by (cases "worker s") (auto simp: worker_step_def)
      from job_step [OF jn nr, of e "[]"] ws
      have j': "job_of (worker t) = None \<or> job_of (worker t) = job_of (worker s)"
        and d: "raised (worker t) \<or> worker t = L101 \<or> job_of (worker t) \<noteq> None"
        by auto
      from d have "worker t \<noteq> L104" by auto
      moreover have "encode_queue_active t = encode_queue_active s"
        using ws
        by (cases "worker s")
           (auto simp: worker_step_def
              split: if_splits list.splits chunk.splits token.splits sum.splits option.splits
                prod.splits)
      ultimately show ?thesis using j j' jn na by (auto simp: held_back_def)
    qed
  next
    case (Gui g)
    with assms(2) have gs: "gui_step g s = Some t" by (simp add: step_def split: if_splits)
    from Gui assms(3) have np: "g \<noteq> Pause_queue" by simp
    show ?thesis
    proof (cases "g = Exit")
      case True
      with gs have ts: "t = shutdown s" by (simp add: gui_step_def)
      then have ct: "closing t" by (simp add: closing_shutdown)
      from ts have "worker t = worker s" by (simp add: shutdown_def)
      with ct j show ?thesis by (simp add: held_back_def)
    next
      case False
      from gui_step_frame [OF gs np False] j na nl show ?thesis by (simp add: held_back_def)
    qed
  qed
qed

lemma held_back_exec:
  assumes "held_back J s" and "exec as s = Some s'" and "Gui Pause_queue \<notin> set as"
  shows "held_back J s'"
  using assms
proof (induction as arbitrary: s)
  case Nil
  then show ?case by simp
next
  case (Cons a as)
  from Cons.prems(2) obtain s1 where a: "step a s = Some s1" and r: "exec as s1 = Some s'"
    by (auto split: option.splits)
  from Cons.prems(3) have na: "a \<noteq> Gui Pause_queue" and ns: "Gui Pause_queue \<notin> set as"
    by auto
  from Cons.prems(1) a na have "held_back J s1" by (rule held_back_step)
  from this r ns show ?case by (rule Cons.IH)
qed

text \<open>
  Claim C9. The worker holds a job (it has taken it from the queue and has not come back
  to line 101), the queue event is set, and "Pause queue" is pressed. The button changes
  neither the worker's position nor the stop request, and the worker, run on its own, does
  on the job exactly what it does without the pause, step by step, up to its return to
  line 101: the job ends there, or by an exception that one of its own operations raises,
  within the number of steps that \<open>job_left\<close> gives. From the pause on, whatever the two
  threads do, as long as "Pause queue" is not pressed again: the worker holds no job or the
  job it held at the pause; while the event loop runs, the queue event stays clear and the
  worker is never at line 104, where it would take from the queue; and if the program is
  closed meanwhile, all that the worker can take at line 104 is the sentinel.
\<close>

theorem C9_pause_holds_back_next_job:
  assumes "job_of (worker s) \<noteq> None" and "encode_queue_active s"
    and "exec as (pause_button s) = Some s'" and "Gui Pause_queue \<notin> set as"
  shows "worker (pause_button s) = worker s \<and>
         stoprequest (pause_button s) = stoprequest s \<and>
         (\<forall>es. finish_job es (pause_button s) = pause_button (finish_job es s)) \<and>
         (\<forall>es. job_left es (worker s) \<le> length es \<longrightarrow>
            worker (finish_job es (pause_button s)) = L101 \<or>
            raised (worker (finish_job es (pause_button s)))) \<and>
         (job_of (worker s') = None \<or> job_of (worker s') = job_of (worker s)) \<and>
         (worker s' = L104 \<longrightarrow> encode_queue s' = [Sentinel]) \<and>
         (gui_alive s' \<longrightarrow> \<not> encode_queue_active s' \<and> worker s' \<noteq> L104)"
proof -
  have w: "worker (pause_button s) = worker s" by (rule pause_button_worker)
  have sr: "stoprequest (pause_button s) = stoprequest s"
    by (simp add: pause_button_def toggle_queue_def Let_def)
  have c: "\<forall>es. finish_job es (pause_button s) = pause_button (finish_job es s)"
    by (simp add: finish_job_pause)
  have e: "\<forall>es. job_left es (worker s) \<le> length es \<longrightarrow>
            worker (finish_job es (pause_button s)) = L101 \<or>
            raised (worker (finish_job es (pause_button s)))"
  proof (intro allI impI)
    fix es :: "env list"
    assume "job_left es (worker s) \<le> length es"
    with w have b: "job_left es (worker (pause_button s)) \<le> length es" by simp
    from assms(1) w have "worker (pause_button s) = L101 \<or> job_of (worker (pause_button s)) \<noteq> None"
      by simp
    from this b show "worker (finish_job es (pause_button s)) = L101 \<or>
            raised (worker (finish_job es (pause_button s)))" by (rule finish_job_ends)
  qed
  have h0: "held_back (job_of (worker s)) (pause_button s)"
    using assms(1,2) by (auto simp: held_back_def pause_button_def toggle_queue_def Let_def)
  from h0 assms(3,4) have h: "held_back (job_of (worker s)) s'" by (rule held_back_exec)
  then have j: "job_of (worker s') = None \<or> job_of (worker s') = job_of (worker s)"
    by (simp add: held_back_def)
  from h have q: "worker s' = L104 \<longrightarrow> encode_queue s' = [Sentinel]"
    by (auto simp: held_back_def closing_def)
  from h have a: "gui_alive s' \<longrightarrow> \<not> encode_queue_active s' \<and> worker s' \<noteq> L104"
    by (auto simp: held_back_def closing_def)
  from w sr c e j q a show ?thesis by blast
qed

lemma paused_job_trace:
  "case exec
     [Gui (Input [General ''a.mkv'', Video (Some 1000) (Some 1048576)]),
     Gui (Start_encode ''a.mkv'' ''a2.mkv'' ''id1'' [''ffmpeg'', ''-i'', ''a.mkv''] None),
     Gui (Start_encode ''a.mkv'' ''a3.mkv'' ''id2'' [''ffmpeg'', ''-i'', ''a.mkv''] None),
     Worker \<lparr>clock = 0, clock2 = 0, spawned = None, inspected = Some []\<rparr>,
     Worker \<lparr>clock = 0, clock2 = 0, spawned = None, inspected = Some []\<rparr>,
     Worker \<lparr>clock = 0, clock2 = 0, spawned = None, inspected = Some []\<rparr>,
     Worker \<lparr>clock = 0, clock2 = 0,
             spawned = Some [Line ''Stream #0:0'', Line ''frame=    1 fps=0.0''],
             inspected = Some []\<rparr>,
     Worker \<lparr>clock = 0, clock2 = 0, spawned = None, inspected = Some []\<rparr>] init of
     None \<Rightarrow> False
   | Some s \<Rightarrow>
       map_option uuid (job_of (worker s)) = Some ''id1'' \<and> encode_queue_active s \<and>
       worker (finish_job (replicate 6 \<lparr>clock = 0, clock2 = 0, spawned = None, inspected = Some []\<rparr>) (pause_button s)) = L101 \<and>
       (case exec
          [Worker \<lparr>clock = 0, clock2 = 0, spawned = None, inspected = Some []\<rparr>, Worker \<lparr>clock = 0, clock2 = 0, spawned = None, inspected = Some []\<rparr>, Worker \<lparr>clock = 0, clock2 = 0, spawned = None, inspected = Some []\<rparr>, Worker \<lparr>clock = 0, clock2 = 0, spawned = None, inspected = Some []\<rparr>, Worker \<lparr>clock = 0, clock2 = 0, spawned = None, inspected = Some []\<rparr>, Worker \<lparr>clock = 0, clock2 = 0, spawned = None, inspected = Some []\<rparr>,
     Gui Poll_event, Gui Poll_event] (pause_button s) of
          None \<Rightarrow> False
        | Some s' \<Rightarrow>
            worker s' = L101 \<and> gui_alive s' \<and>
            map (\<lambda>j. (uuid j, status j)) (encode_list s') = [(''id1'', Finished), (''id2'', Waiting)] \<and>
            map (\<lambda>t. case t of Job j \<Rightarrow> uuid j | Skip \<Rightarrow> ''_skip'' | Sentinel \<Rightarrow> ''_sentinel'')
           (encode_queue s') = [''id2'', ''_skip''] \<and>
            (case worker_step \<lparr>clock = 0, clock2 = 0, spawned = None, inspected = Some []\<rparr> s' of None \<Rightarrow> True | Some t \<Rightarrow> False))"
  by code_simp

theorem C9_pause_holds_back_next_job_witness:
  "\<exists>s s'. reachable s \<and>
     map_option uuid (job_of (worker s)) = Some ''id1'' \<and> encode_queue_active s \<and>
     exec
       [Worker \<lparr>clock = 0, clock2 = 0, spawned = None, inspected = Some []\<rparr>, Worker \<lparr>clock = 0, clock2 = 0, spawned = None, inspected = Some []\<rparr>, Worker \<lparr>clock = 0, clock2 = 0, spawned = None, inspected = Some []\<rparr>, Worker \<lparr>clock = 0, clock2 = 0, spawned = None, inspected = Some []\<rparr>, Worker \<lparr>clock = 0, clock2 = 0, spawned = None, inspected = Some []\<rparr>, Worker \<lparr>clock = 0, clock2 = 0, spawned = None, inspected = Some []\<rparr>,
     Gui Poll_event, Gui Poll_event] (pause_button s) = Some s' \<and>
     Gui Pause_queue \<notin> set
       [Worker \<lparr>clock = 0, clock2 = 0, spawned = None, inspected = Some []\<rparr>, Worker \<lparr>clock = 0, clock2 = 0, spawned = None, inspected = Some []\<rparr>, Worker \<lparr>clock = 0, clock2 = 0, spawned = None, inspected = Some []\<rparr>, Worker \<lparr>clock = 0, clock2 = 0, spawned = None, inspected = Some []\<rparr>, Worker \<lparr>clock = 0, clock2 = 0, spawned = None, inspected = Some []\<rparr>, Worker \<lparr>clock = 0, clock2 = 0, spawned = None, inspected = Some []\<rparr>,
     Gui Poll_event, Gui Poll_event] \<and>
     worker s' = L101 \<and>
     map (\<lambda>j. (uuid j, status j)) (encode_list s') = [(''id1'', Finished), (''id2'', Waiting)] \<and>
     map (\<lambda>t. case t of Job j \<Rightarrow> uuid j | Skip \<Rightarrow> ''_skip'' | Sentinel \<Rightarrow> ''_sentinel'')
           (encode_queue s') = [''id2'', ''_skip''] \<and>
     \<not> encode_queue_active s' \<and>
     (case worker_step \<lparr>clock = 0, clock2 = 0, spawned = None, inspected = Some []\<rparr> s' of None \<Rightarrow> True | Some t \<Rightarrow> False) \<and>
     worker (finish_job (replicate 6 \<lparr>clock = 0, clock2 = 0, spawned = None, inspected = Some []\<rparr>) (pause_button s)) = L101 \<and>
     finish_job (replicate 6 \<lparr>clock = 0, clock2 = 0, spawned = None, inspected = Some []\<rparr>) (pause_button s) =
       pause_button (finish_job (replicate 6 \<lparr>clock = 0, clock2 = 0, spawned = None, inspected = Some []\<rparr>) s)"
proof -
  define tr where "tr =
    [Gui (Input [General ''a.mkv'', Video (Some 1000) (Some 1048576)]),
     Gui (Start_encode ''a.mkv'' ''a2.mkv'' ''id1'' [''ffmpeg'', ''-i'', ''a.mkv''] None),
     Gui (Start_encode ''a.mkv'' ''a3.mkv'' ''id2'' [''ffmpeg'', ''-i'', ''a.mkv''] None),
     Worker \<lparr>clock = 0, clock2 = 0, spawned = None, inspected = Some []\<rparr>,
     Worker \<lparr>clock = 0, clock2 = 0, spawned = None, inspected = Some []\<rparr>,
     Worker \<lparr>clock = 0, clock2 = 0, spawned = None, inspected = Some []\<rparr>,
     Worker \<lparr>clock = 0, clock2 = 0,
             spawned = Some [Line ''Stream #0:0'', Line ''frame=    1 fps=0.0''],
             inspected = Some []\<rparr>,
     Worker \<lparr>clock = 0, clock2 = 0, spawned = None, inspected = Some []\<rparr>]"
  define ws where "ws =
    [Worker \<lparr>clock = 0, clock2 = 0, spawned = None, inspected = Some []\<rparr>, Worker \<lparr>clock = 0, clock2 = 0, spawned = None, inspected = Some []\<rparr>, Worker \<lparr>clock = 0, clock2 = 0, spawned = None, inspected = Some []\<rparr>, Worker \<lparr>clock = 0, clock2 = 0, spawned = None, inspected = Some []\<rparr>, Worker \<lparr>clock = 0, clock2 = 0, spawned = None, inspected = Some []\<rparr>, Worker \<lparr>clock = 0, clock2 = 0, spawned = None, inspected = Some []\<rparr>,
     Gui Poll_event, Gui Poll_event]"
  have t: "case exec tr init of
     None \<Rightarrow> False
   | Some s \<Rightarrow>
       map_option uuid (job_of (worker s)) = Some ''id1'' \<and> encode_queue_active s \<and>
       worker (finish_job (replicate 6 \<lparr>clock = 0, clock2 = 0, spawned = None, inspected = Some []\<rparr>) (pause_button s)) = L101 \<and>
       (case exec ws (pause_button s) of
          None \<Rightarrow> False
        | Some s' \<Rightarrow>
            worker s' = L101 \<and> gui_alive s' \<and>
            map (\<lambda>j. (uuid j, status j)) (encode_list s') = [(''id1'', Finished), (''id2'', Waiting)] \<and>
            map (\<lambda>t. case t of Job j \<Rightarrow> uuid j | Skip \<Rightarrow> ''_skip'' | Sentinel \<Rightarrow> ''_sentinel'')
           (encode_queue s') = [''id2'', ''_skip''] \<and>
            (case worker_step \<lparr>clock = 0, clock2 = 0, spawned = None, inspected = Some []\<rparr> s' of None \<Rightarrow> True | Some t \<Rightarrow> False))"
    unfolding tr_def ws_def by (rule paused_job_trace)
  then obtain s where e: "exec tr init = Some s"
    and j: "map_option uuid (job_of (worker s)) = Some ''id1''"
    and a: "encode_queue_active s"
    and f: "worker (finish_job (replicate 6 \<lparr>clock = 0, clock2 = 0, spawned = None, inspected = Some []\<rparr>) (pause_button s)) = L101"
    and t2: "case exec ws (pause_button s) of
          None \<Rightarrow> False
        | Some s' \<Rightarrow>
            worker s' = L101 \<and> gui_alive s' \<and>
            map (\<lambda>j. (uuid j, status j)) (encode_list s') = [(''id1'', Finished), (''id2'', Waiting)] \<and>
            map (\<lambda>t. case t of Job j \<Rightarrow> uuid j | Skip \<Rightarrow> ''_skip'' | Sentinel \<Rightarrow> ''_sentinel'')
           (encode_queue s') = [''id2'', ''_skip''] \<and>
            (case worker_step \<lparr>clock = 0, clock2 = 0, spawned = None, inspected = Some []\<rparr> s' of None \<Rightarrow> True | Some t \<Rightarrow> False)"
    by (cases "exec tr init") (simp_all only: option.case)
  from t2 obtain s' where e2: "exec ws (pause_button s) = Some s'"
    and w2: "worker s' = L101" and g2: "gui_alive s'"
    and l2: "map (\<lambda>j. (uuid j, status j)) (encode_list s') = [(''id1'', Finished), (''id2'', Waiting)]"
    and q2: "map (\<lambda>t. case t of Job j \<Rightarrow> uuid j | Skip \<Rightarrow> ''_skip'' | Sentinel \<Rightarrow> ''_sentinel'')
           (encode_queue s') = [''id2'', ''_skip'']"
    and b2: "(case worker_step \<lparr>clock = 0, clock2 = 0, spawned = None, inspected = Some []\<rparr> s' of None \<Rightarrow> True | Some t \<Rightarrow> False)"
    by (cases "exec ws (pause_button s)") (simp_all only: option.case)
  from reachable_init e have r: "reachable s" by (rule exec_reachable)
  from j have jn: "job_of (worker s) \<noteq> None" by auto
  have np: "Gui Pause_queue \<notin> set ws" by (simp add: ws_def)
  from C9_pause_holds_back_next_job [OF jn a e2 np]
  have c1: "\<forall>es. finish_job es (pause_button s) = pause_button (finish_job es s)"
    and c2: "gui_alive s' \<longrightarrow> \<not> encode_queue_active s' \<and> worker s' \<noteq> L104"
    by blast+
  from c2 g2 have na: "\<not> encode_queue_active s'" by simp
  from c1 have cm: "finish_job (replicate 6 \<lparr>clock = 0, clock2 = 0, spawned = None, inspected = Some []\<rparr>) (pause_button s) =
       pause_button (finish_job (replicate 6 \<lparr>clock = 0, clock2 = 0, spawned = None, inspected = Some []\<rparr>) s)" by (rule spec)
  show ?thesis
  proof (intro exI conjI)
    show "reachable s" by (rule r)
    show "map_option uuid (job_of (worker s)) = Some ''id1''" by (rule j)
    show "encode_queue_active s" by (rule a)
    show "exec
       [Worker \<lparr>clock = 0, clock2 = 0, spawned = None, inspected = Some []\<rparr>, Worker \<lparr>clock = 0, clock2 = 0, spawned = None, inspected = Some []\<rparr>, Worker \<lparr>clock = 0, clock2 = 0, spawned = None, inspected = Some []\<rparr>, Worker \<lparr>clock = 0, clock2 = 0, spawned = None, inspected = Some []\<rparr>, Worker \<lparr>clock = 0, clock2 = 0, spawned = None, inspected = Some []\<rparr>, Worker \<lparr>clock = 0, clock2 = 0, spawned = None, inspected = Some []\<rparr>,
     Gui Poll_event, Gui Poll_event] (pause_button s) = Some s'" using e2 by (simp only: ws_def)
    show "Gui Pause_queue \<notin> set
       [Worker \<lparr>clock = 0, clock2 = 0, spawned = None, inspected = Some []\<rparr>, Worker \<lparr>clock = 0, clock2 = 0, spawned = None, inspected = Some []\<rparr>, Worker \<lparr>clock = 0, clock2 = 0, spawned = None, inspected = Some []\<rparr>, Worker \<lparr>clock = 0, clock2 = 0, spawned = None, inspected = Some []\<rparr>, Worker \<lparr>clock = 0, clock2 = 0, spawned = None, inspected = Some []\<rparr>, Worker \<lparr>clock = 0, clock2 = 0, spawned = None, inspected = Some []\<rparr>,
     Gui Poll_event, Gui Poll_event]" using np unfolding ws_def .
    show "worker s' = L101" by (rule w2)
    show "map (\<lambda>j. (uuid j, status j)) (encode_list s') = [(''id1'', Finished), (''id2'', Waiting)]" by (rule l2)
    show "map (\<lambda>t. case t of Job j \<Rightarrow> uuid j | Skip \<Rightarrow> ''_skip'' | Sentinel \<Rightarrow> ''_sentinel'')
           (encode_queue s') = [''id2'', ''_skip'']" by (rule q2)
    show "\<not> encode_queue_active s'" by (rule na)
    show "(case worker_step \<lparr>clock = 0, clock2 = 0, spawned = None, inspected = Some []\<rparr> s' of None \<Rightarrow> True | Some t \<Rightarrow> False)" by (rule b2)
    show "worker (finish_job (replicate 6 \<lparr>clock = 0, clock2 = 0, spawned = None, inspected = Some []\<rparr>) (pause_button s)) = L101" by (rule f)
    show "finish_job (replicate 6 \<lparr>clock = 0, clock2 = 0, spawned = None, inspected = Some []\<rparr>) (pause_button s) =
       pause_button (finish_job (replicate 6 \<lparr>clock = 0, clock2 = 0, spawned = None, inspected = Some []\<rparr>) s)" by (rule cm)
  qed
qed

end
